theory Spec2Isabelle
  imports Complex_Main "HOL-Library.Multiset"
begin

section \<open>Strings and JSON values\<close>

text \<open>
  A JavaScript string is modelled as a \<open>string\<close>: a list of code units below 256 (the
  ASCII and Latin-1 range), so that \<open>length\<close> is the \<open>.length\<close> of the source. Numbers
  that are serialised are integers (\<open>tokenCount\<close> is a \<open>Math.ceil\<close>) or, for a number
  that is not an integer such as the temperature 0.7, the text that \<open>JSON.stringify\<close>
  prints for it (\<open>JFrac\<close>). Costs and rates, which are only added and compared, are
  rationals, so floating-point rounding is not modelled.
\<close>

datatype json =
    JNull
  | JBool bool
  | JNum int
  | JFrac string
  | JStr string
  | JArr "json list"
  | JObj "(string \<times> json) list"

text \<open>\<open>Array.prototype.join\<close>.\<close>

fun join :: "string \<Rightarrow> string list \<Rightarrow> string" where
  "join sep [] = []"
| "join sep [x] = x"
| "join sep (x # y # ys) = x @ sep @ join sep (y # ys)"

text \<open>The decimal digits of a natural number.\<close>

fun digits :: "nat \<Rightarrow> string" where
  "digits n =
     (if n < 10 then [char_of (48 + n)]
      else digits (n div 10) @ [char_of (48 + n mod 10)])"

declare digits.simps [simp del]

definition hexdigit :: "nat \<Rightarrow> char" where
  "hexdigit n = (if n < 10 then char_of (48 + n) else char_of (87 + n))"

text \<open>
  The escapes of \<open>JSON.stringify\<close> (QuoteJSONString): the double quote (0x22), the
  backslash (0x5C), the five short escapes, and \<open>\u00XX\<close> for the other control
  characters.
\<close>

definition escape_char :: "char \<Rightarrow> string" where
  "escape_char c =
     (if c = CHR 0x22 then [CHR 0x5C, CHR 0x22]
      else if c = CHR 0x5C then [CHR 0x5C, CHR 0x5C]
      else if c = CHR 0x08 then [CHR 0x5C, CHR ''b'']
      else if c = CHR 0x09 then [CHR 0x5C, CHR ''t'']
      else if c = CHR 0x0A then [CHR 0x5C, CHR ''n'']
      else if c = CHR 0x0C then [CHR 0x5C, CHR ''f'']
      else if c = CHR 0x0D then [CHR 0x5C, CHR ''r'']
      else if (of_char c :: nat) < 32 then
        [CHR 0x5C, CHR ''u'', CHR ''0'', CHR ''0'',
         hexdigit (of_char c div 16), hexdigit (of_char c mod 16)]
      else [c])"

definition quote :: "string \<Rightarrow> string" where
  "quote s = CHR 0x22 # concat (map escape_char s) @ [CHR 0x22]"

text \<open>\<open>JSON.stringify\<close> without indentation, on a value that holds no \<open>undefined\<close>.\<close>

fun JSON_stringify :: "json \<Rightarrow> string" where
  "JSON_stringify JNull = ''null''"
| "JSON_stringify (JBool b) = (if b then ''true'' else ''false'')"
| "JSON_stringify (JNum n) = (if n < 0 then ''-'' @ digits (nat (- n)) else digits (nat n))"
| "JSON_stringify (JFrac s) = s"
| "JSON_stringify (JStr s) = quote s"
| "JSON_stringify (JArr xs) = ''['' @ join '','' (map JSON_stringify xs) @ '']''"
| "JSON_stringify (JObj kvs) =
     ''{'' @ join '','' (map (\<lambda>(k, v). quote k @ '':'' @ JSON_stringify v) kvs) @ ''}''"

text \<open>
  An object literal, its properties in the order they are written. A property whose
  value is \<open>undefined\<close> (\<open>None\<close>) is left out by \<open>JSON.stringify\<close>.
\<close>

definition obj :: "(string \<times> json option) list \<Rightarrow> json" where
  "obj fs = JObj (List.map_filter (\<lambda>(k, v). map_option (Pair k) v) fs)"

text \<open>Reading a property (\<open>None\<close> is \<open>undefined\<close>) and assigning to one.\<close>

fun field :: "string \<Rightarrow> json \<Rightarrow> json option" where
  "field k (JObj kvs) = map_of kvs k"
| "field k _ = None"

fun assign :: "string \<Rightarrow> 'v \<Rightarrow> (string \<times> 'v) list \<Rightarrow> (string \<times> 'v) list" where
  "assign k v [] = [(k, v)]"
| "assign k v ((k', v') # kvs) = (if k = k' then (k, v) # kvs else (k', v') # assign k v kvs)"

fun set_field :: "string \<Rightarrow> json \<Rightarrow> json \<Rightarrow> json" where
  "set_field k v (JObj kvs) = JObj (assign k v kvs)"
| "set_field k v j = j"

text \<open>JavaScript truthiness of a property that was read.\<close>

fun truthy :: "json option \<Rightarrow> bool" where
  "truthy None = False"
| "truthy (Some JNull) = False"
| "truthy (Some (JBool b)) = b"
| "truthy (Some (JNum n)) = (n \<noteq> 0)"
| "truthy (Some (JFrac s)) = True"
| "truthy (Some (JStr s)) = (s \<noteq> [])"
| "truthy (Some (JArr xs)) = True"
| "truthy (Some (JObj kvs)) = True"

section \<open>The minified specification (types/index.ts)\<close>

datatype MinifiedSchema =
  MinifiedSchema
    (s_type: string)
    (s_ref: "string option")
    (s_properties: "(string \<times> MinifiedSchema) list option")
    (s_items: "MinifiedSchema option")
    (s_required: "string list option")
    (s_enum: "json list option")
    (s_format: "string option")

record MinifiedParameter =
  p_name :: string
  p_in :: string
  p_required :: "bool option"
  p_type :: string
  p_description :: "string option"

record MinifiedRequestBody =
  rb_required :: "bool option"
  rb_schema :: MinifiedSchema

text \<open>
  \<open>minifyResponses\<close> stores \<open>truncateDescription(...)\<close>, which is \<open>undefined\<close> for an
  empty description, so the field is optional in the model.
\<close>

record MinifiedResponse =
  r_description :: "string option"
  r_schema :: "MinifiedSchema option"

record MinifiedOperation =
  op_method :: string
  op_operationId :: "string option"
  op_summary :: "string option"
  op_parameters :: "MinifiedParameter list option"
  op_requestBody :: "MinifiedRequestBody option"
  op_responses :: "(string \<times> MinifiedResponse) list"

record MinifiedPath =
  pt_path :: string
  pt_operations :: "MinifiedOperation list"

record MinifiedInfo =
  i_title :: string
  i_version :: string
  i_description :: "string option"

record MinifiedSpec =
  m_info :: MinifiedInfo
  m_paths :: "MinifiedPath list"
  m_schemas :: "(string \<times> MinifiedSchema) list"
  m_tokenCount :: int

subsection \<open>The JSON value of a minified specification\<close>

fun schema_json :: "MinifiedSchema \<Rightarrow> json" where
  "schema_json (MinifiedSchema t r ps it req en fmt) =
     obj [(''type'', Some (JStr t)),
          (''ref'', map_option JStr r),
          (''properties'', map_option (\<lambda>qs. JObj (map (\<lambda>(k, s). (k, schema_json s)) qs)) ps),
          (''items'', map_option schema_json it),
          (''required'', map_option (\<lambda>xs. JArr (map JStr xs)) req),
          (''enum'', map_option JArr en),
          (''format'', map_option JStr fmt)]"

definition parameter_json :: "MinifiedParameter \<Rightarrow> json" where
  "parameter_json p =
     obj [(''name'', Some (JStr (p_name p))),
          (''in'', Some (JStr (p_in p))),
          (''required'', map_option JBool (p_required p)),
          (''type'', Some (JStr (p_type p))),
          (''description'', map_option JStr (p_description p))]"

definition requestBody_json :: "MinifiedRequestBody \<Rightarrow> json" where
  "requestBody_json b =
     obj [(''required'', map_option JBool (rb_required b)),
          (''schema'', Some (schema_json (rb_schema b)))]"

definition response_json :: "MinifiedResponse \<Rightarrow> json" where
  "response_json r =
     obj [(''description'', map_option JStr (r_description r)),
          (''schema'', map_option schema_json (r_schema r))]"

definition operation_json :: "MinifiedOperation \<Rightarrow> json" where
  "operation_json op =
     obj [(''method'', Some (JStr (op_method op))),
          (''operationId'', map_option JStr (op_operationId op)),
          (''summary'', map_option JStr (op_summary op)),
          (''parameters'', map_option (\<lambda>ps. JArr (map parameter_json ps)) (op_parameters op)),
          (''requestBody'', map_option requestBody_json (op_requestBody op)),
          (''responses'', Some (JObj (map (\<lambda>(c, r). (c, response_json r)) (op_responses op))))]"

definition path_json :: "MinifiedPath \<Rightarrow> json" where
  "path_json p =
     obj [(''path'', Some (JStr (pt_path p))),
          (''operations'', Some (JArr (map operation_json (pt_operations p))))]"

definition info_json :: "MinifiedInfo \<Rightarrow> json" where
  "info_json i =
     obj [(''title'', Some (JStr (i_title i))),
          (''version'', Some (JStr (i_version i))),
          (''description'', map_option JStr (i_description i))]"

definition spec_json :: "MinifiedSpec \<Rightarrow> json" where
  "spec_json m =
     obj [(''info'', Some (info_json (m_info m))),
          (''paths'', Some (JArr (map path_json (m_paths m)))),
          (''schemas'', Some (JObj (map (\<lambda>(n, s). (n, schema_json s)) (m_schemas m)))),
          (''tokenCount'', Some (JNum (m_tokenCount m)))]"

section \<open>OpenAPIMinifier (pipeline/minifier.ts)\<close>

text \<open>\<open>Math.ceil(content.length / 4)\<close>.\<close>

definition estimateTokens :: "string \<Rightarrow> nat" where
  "estimateTokens content = (length content + 3) div 4"

text \<open>The default of \<open>maxLength\<close> is 200; an empty or missing description gives \<open>undefined\<close>.\<close>

definition truncateDescription :: "string option \<Rightarrow> nat \<Rightarrow> string option" where
  "truncateDescription description maxLength =
     (case description of
        None \<Rightarrow> None
      | Some d \<Rightarrow>
          if d = [] then None
          else if length d > maxLength then Some (take maxLength d @ ''...'')
          else Some d)"

subsection \<open>The OpenAPI document that is read\<close>

text \<open>
  Of \<open>OpenAPIV3.Document\<close> only what the minifier reads is kept. A value that is either
  a \<open>$ref\<close> object or the object itself is a datatype with one constructor for each.
  The key order of an object is the order of \<open>Object.entries\<close>.
\<close>

datatype SchemaObject =
    SchemaRef string
  | Schema
      "string option"
      "(string \<times> SchemaObject) list option"
      "SchemaObject option"
      "string list option"
      "json list option"
      "string option"

datatype ParameterObject =
    ParameterRef string
  | Parameter string string "bool option" "SchemaObject option" "string option"

text \<open>
  A request body or response has an optional \<open>content\<close>, which maps a media type to
  an object with an optional \<open>schema\<close>.
\<close>

datatype RequestBodyObject =
    RequestBodyRef string
  | RequestBody "bool option" "(string \<times> SchemaObject option) list option"

datatype ResponseObject =
    ResponseRef string
  | Response "string option" "(string \<times> SchemaObject option) list option"

record OperationObject =
  o_operationId :: "string option"
  o_summary :: "string option"
  o_parameters :: "ParameterObject list option"
  o_requestBody :: "RequestBodyObject option"
  o_responses :: "(string \<times> ResponseObject) list"

text \<open>
  A path item is the list of its entries; the value under a key that is not an HTTP
  method is never read, and a missing (falsy) operation is \<open>None\<close>.
\<close>

type_synonym PathItemObject = "(string \<times> OperationObject option) list"

type_synonym PathsObject = "(string \<times> PathItemObject option) list"

record Document =
  d_title :: string
  d_version :: string
  d_description :: "string option"
  d_paths :: "PathsObject option"
  d_schemas :: "(string \<times> SchemaObject) list option"

subsection \<open>Case mapping\<close>

text \<open>
  \<open>toLowerCase\<close> and \<open>toUpperCase\<close> on code units below 256. The three Latin-1
  letters whose upper case lies outside that range (0xB5, 0xDF, 0xFF) are left
  unchanged by the model; no HTTP method name contains them.
\<close>

definition lower_char :: "char \<Rightarrow> char" where
  "lower_char c =
     (let n = (of_char c :: nat)
      in if (65 \<le> n \<and> n \<le> 90) \<or> (192 \<le> n \<and> n \<le> 222 \<and> n \<noteq> 215)
         then char_of (n + 32) else c)"

definition upper_char :: "char \<Rightarrow> char" where
  "upper_char c =
     (let n = (of_char c :: nat)
      in if (97 \<le> n \<and> n \<le> 122) \<or> (224 \<le> n \<and> n \<le> 254 \<and> n \<noteq> 247)
         then char_of (n - 32) else c)"

definition toLowerCase :: "string \<Rightarrow> string" where
  "toLowerCase s = map lower_char s"

definition toUpperCase :: "string \<Rightarrow> string" where
  "toUpperCase s = map upper_char s"

subsection \<open>minify\<close>

definition isHttpMethod :: "string \<Rightarrow> bool" where
  "isHttpMethod method =
     (toLowerCase method \<in>
        set [''get'', ''post'', ''put'', ''patch'', ''delete'', ''head'', ''options''])"

text \<open>\<open>x || d\<close> on an optional string: a missing or empty string gives the default.\<close>

definition or_else :: "string option \<Rightarrow> string \<Rightarrow> string" where
  "or_else x d = (case x of None \<Rightarrow> d | Some s \<Rightarrow> if s = [] then d else s)"

fun minifySchemaObject :: "SchemaObject \<Rightarrow> MinifiedSchema" where
  "minifySchemaObject (SchemaRef r) =
     MinifiedSchema ''ref'' (Some r) None None None None None"
| "minifySchemaObject (Schema t ps it req en fmt) =
     MinifiedSchema (or_else t ''object'') None
       (map_option (map (\<lambda>(propName, propSchema). (propName, minifySchemaObject propSchema))) ps)
       (map_option minifySchemaObject it)
       req en
       (case fmt of None \<Rightarrow> None | Some f \<Rightarrow> if f = [] then None else Some f)"

definition minifySchema :: "SchemaObject option \<Rightarrow> MinifiedSchema" where
  "minifySchema schema =
     (case schema of
        None \<Rightarrow> MinifiedSchema ''any'' None None None None None None
      | Some s \<Rightarrow> minifySchemaObject s)"

definition minifySchemas :: "(string \<times> SchemaObject) list \<Rightarrow> (string \<times> MinifiedSchema) list" where
  "minifySchemas ss = map (\<lambda>(name, schema). (name, minifySchema (Some schema))) ss"

definition getParameterType :: "SchemaObject option \<Rightarrow> string" where
  "getParameterType schema =
     (case schema of
        None \<Rightarrow> ''string''
      | Some (SchemaRef r) \<Rightarrow> ''ref''
      | Some (Schema t ps it req en fmt) \<Rightarrow> or_else t ''string'')"

fun minifyParameter :: "ParameterObject \<Rightarrow> MinifiedParameter" where
  "minifyParameter (ParameterRef r) =
     \<lparr>p_name = ''ref_parameter'', p_in = ''query'', p_required = None,
      p_type = ''string'', p_description = None\<rparr>"
| "minifyParameter (Parameter name loc req schema descr) =
     \<lparr>p_name = name, p_in = loc, p_required = req,
      p_type = getParameterType schema,
      p_description = truncateDescription descr 50\<rparr>"

definition minifyParameters :: "ParameterObject list option \<Rightarrow> MinifiedParameter list option" where
  "minifyParameters parameters = map_option (map minifyParameter) parameters"

text \<open>\<open>content && content['application/json']\<close>: the media type object, when present.\<close>

definition json_content :: "(string \<times> SchemaObject option) list option \<Rightarrow> SchemaObject option option" where
  "json_content content =
     (case content of None \<Rightarrow> None | Some c \<Rightarrow> map_of c ''application/json'')"

fun minifyRequestBody :: "RequestBodyObject option \<Rightarrow> MinifiedRequestBody option" where
  "minifyRequestBody None = None"
| "minifyRequestBody (Some (RequestBodyRef r)) = None"
| "minifyRequestBody (Some (RequestBody req content)) =
     (case json_content content of
        Some schema \<Rightarrow> Some \<lparr>rb_required = req, rb_schema = minifySchema schema\<rparr>
      | None \<Rightarrow> None)"

fun minifyResponses :: "(string \<times> ResponseObject) list \<Rightarrow> (string \<times> MinifiedResponse) list" where
  "minifyResponses [] = []"
| "minifyResponses ((code, ResponseRef r) # rs) = minifyResponses rs"
| "minifyResponses ((code, Response descr content) # rs) =
     (code, \<lparr>r_description = truncateDescription descr 100,
             r_schema = map_option minifySchema (json_content content)\<rparr>)
     # minifyResponses rs"

definition minifyOperation :: "string \<Rightarrow> OperationObject \<Rightarrow> MinifiedOperation" where
  "minifyOperation method op =
     \<lparr>op_method = toUpperCase method,
      op_operationId = o_operationId op,
      op_summary = truncateDescription (o_summary op) 200,
      op_parameters = minifyParameters (o_parameters op),
      op_requestBody = minifyRequestBody (o_requestBody op),
      op_responses = minifyResponses (o_responses op)\<rparr>"

text \<open>The inner loop of \<open>minifyPaths\<close>, over the entries of one path item.\<close>

fun minifyOperations :: "PathItemObject \<Rightarrow> MinifiedOperation list" where
  "minifyOperations [] = []"
| "minifyOperations ((method, operation) # es) =
     (case operation of
        Some op \<Rightarrow>
          if isHttpMethod method then minifyOperation method op # minifyOperations es
          else minifyOperations es
      | None \<Rightarrow> minifyOperations es)"

fun minifyPaths :: "PathsObject \<Rightarrow> MinifiedPath list" where
  "minifyPaths [] = []"
| "minifyPaths ((p, pathItem) # ps) =
     (case pathItem of
        None \<Rightarrow> minifyPaths ps
      | Some item \<Rightarrow>
          (let ops = minifyOperations item
           in if length ops > 0
              then \<lparr>pt_path = p, pt_operations = ops\<rparr> # minifyPaths ps
              else minifyPaths ps))"

definition minify :: "Document \<Rightarrow> MinifiedSpec" where
  "minify spec =
     (let minified =
        \<lparr>m_info = \<lparr>i_title = d_title spec, i_version = d_version spec,
                   i_description = truncateDescription (d_description spec) 200\<rparr>,
         m_paths = minifyPaths (case d_paths spec of None \<Rightarrow> [] | Some ps \<Rightarrow> ps),
         m_schemas = minifySchemas (case d_schemas spec of None \<Rightarrow> [] | Some ss \<Rightarrow> ss),
         m_tokenCount = 0\<rparr>;
        content = JSON_stringify (spec_json minified)
      in minified\<lparr>m_tokenCount := int (estimateTokens content)\<rparr>)"

subsection \<open>minifyForOperation\<close>

text \<open>The inner loop of \<open>filterPathsByOperations\<close>: the entries that are kept.\<close>

fun filterOperations :: "string list \<Rightarrow> PathItemObject \<Rightarrow> PathItemObject" where
  "filterOperations operationIds [] = []"
| "filterOperations operationIds ((method, operation) # es) =
     (case operation of
        Some op \<Rightarrow>
          if isHttpMethod method \<and>
             (case o_operationId op of
                None \<Rightarrow> False
              | Some i \<Rightarrow> i \<noteq> [] \<and> i \<in> set operationIds)
          then (method, operation) # filterOperations operationIds es
          else filterOperations operationIds es
      | None \<Rightarrow> filterOperations operationIds es)"

fun filterPathsByOperations :: "PathsObject \<Rightarrow> string list \<Rightarrow> PathsObject" where
  "filterPathsByOperations [] operationIds = []"
| "filterPathsByOperations ((p, pathItem) # ps) operationIds =
     (case pathItem of
        None \<Rightarrow> filterPathsByOperations ps operationIds
      | Some item \<Rightarrow>
          (let filteredPathItem = filterOperations operationIds item
           in if filteredPathItem \<noteq> []
              then (p, Some filteredPathItem) # filterPathsByOperations ps operationIds
              else filterPathsByOperations ps operationIds))"

definition extractRelevantSchemas ::
  "PathsObject \<Rightarrow> (string \<times> SchemaObject) list \<Rightarrow> (string \<times> SchemaObject) list" where
  "extractRelevantSchemas ps allSchemas = allSchemas"

definition minifyForOperation :: "Document \<Rightarrow> string list \<Rightarrow> MinifiedSpec" where
  "minifyForOperation spec operationIds =
     (let relevantPaths =
        filterPathsByOperations (case d_paths spec of None \<Rightarrow> [] | Some ps \<Rightarrow> ps) operationIds;
        relevantSchemas =
          extractRelevantSchemas relevantPaths
            (case d_schemas spec of None \<Rightarrow> [] | Some ss \<Rightarrow> ss)
      in \<lparr>m_info = \<lparr>i_title = d_title spec, i_version = d_version spec, i_description = None\<rparr>,
          m_paths = minifyPaths relevantPaths,
          m_schemas = minifySchemas relevantSchemas,
          m_tokenCount = 0\<rparr>)"

subsection \<open>optimizeForTokenLimit\<close>

text \<open>
  \<open>removeDescriptions\<close> works on \<open>JSON.parse(JSON.stringify(spec))\<close>, that is on the
  JSON value of the specification, and from there on the stages handle a parsed value.
  \<open>removeDescriptionsRecursive\<close> deletes the key \<open>description\<close> of every object and
  visits every value of every object and array.
\<close>

fun removeDescriptionsRecursive :: "json \<Rightarrow> json" where
  "removeDescriptionsRecursive (JObj kvs) =
     JObj (map (\<lambda>(k, v). (k, removeDescriptionsRecursive v))
             (filter (\<lambda>(k, v). k \<noteq> ''description'') kvs))"
| "removeDescriptionsRecursive (JArr xs) = JArr (map removeDescriptionsRecursive xs)"
| "removeDescriptionsRecursive j = j"

definition removeDescriptions :: "json \<Rightarrow> json" where
  "removeDescriptions spec = removeDescriptionsRecursive spec"

text \<open>
  The body of the loop of \<open>simplifySchemas\<close> for one schema. In a minified
  specification \<open>properties\<close> is an object or absent; a value of another shape cannot
  occur there and is left as it is.
\<close>

definition simplifySchema :: "json \<Rightarrow> json" where
  "simplifySchema schema =
     (case field ''properties'' schema of
        Some (JObj props) \<Rightarrow>
          if length props > 10
          then JObj [(''type'', JStr ''object''), (''properties'', JObj (take 5 props))]
          else schema
      | _ \<Rightarrow> schema)"

definition simplifySchemas :: "json \<Rightarrow> json" where
  "simplifySchemas spec =
     (case field ''schemas'' spec of
        Some (JObj ss) \<Rightarrow>
          set_field ''schemas'' (JObj (map (\<lambda>(name, schema). (name, simplifySchema schema)) ss)) spec
      | _ \<Rightarrow> spec)"

text \<open>The score of a path in the comparator of \<open>reduceOperations\<close>.\<close>

definition operationScore :: "json \<Rightarrow> int" where
  "operationScore op =
     (if field ''method'' op = Some (JStr ''GET'') then 2 else 1)
     + (if truthy (field ''operationId'' op) then 1 else 0)"

definition pathScore :: "json \<Rightarrow> int" where
  "pathScore p =
     (case field ''operations'' p of
        Some (JArr ops) \<Rightarrow> foldl (\<lambda>score op. score + operationScore op) 0 ops
      | _ \<Rightarrow> 0)"

text \<open>
  The loop that admits paths again. \<open>currentTokens + pathTokens <= maxTokens * 0.9\<close>
  is written without the fraction.
\<close>

fun keepPaths :: "int \<Rightarrow> nat \<Rightarrow> json list \<Rightarrow> json list" where
  "keepPaths maxTokens currentTokens [] = []"
| "keepPaths maxTokens currentTokens (p # ps) =
     (let pathTokens = estimateTokens (JSON_stringify p)
      in if 10 * int (currentTokens + pathTokens) \<le> 9 * maxTokens
         then p # keepPaths maxTokens (currentTokens + pathTokens) ps
         else [])"

text \<open>
  \<open>Array.prototype.sort\<close> is stable; with the comparator \<open>bScore - aScore\<close> it sorts by
  descending score, which is \<open>sort_key\<close> on the negated score.
\<close>

definition reduceOperations :: "json \<Rightarrow> int \<Rightarrow> json" where
  "reduceOperations spec maxTokens =
     (case field ''paths'' spec of
        Some (JArr ps) \<Rightarrow>
          (let sortedPaths = sort_key (\<lambda>p. - pathScore p) ps;
               currentTokens =
                 estimateTokens (JSON_stringify
                   (obj [(''info'', field ''info'' spec), (''schemas'', field ''schemas'' spec)]))
           in set_field ''paths'' (JArr (keepPaths maxTokens currentTokens sortedPaths)) spec)
      | _ \<Rightarrow> spec)"

definition tokens :: "json \<Rightarrow> nat" where
  "tokens j = estimateTokens (JSON_stringify j)"

text \<open>
  The result is the JSON value of the returned object: the input object itself on the
  first branch, a parsed and reduced copy on the others.
\<close>

definition optimizeForTokenLimit :: "MinifiedSpec \<Rightarrow> int \<Rightarrow> json" where
  "optimizeForTokenLimit minified maxTokens =
     (if m_tokenCount minified \<le> maxTokens then spec_json minified
      else
        let optimized = removeDescriptions (spec_json minified)
        in if int (tokens optimized) \<le> maxTokens
           then set_field ''tokenCount'' (JNum (int (tokens optimized))) optimized
           else
             let optimized = simplifySchemas optimized
             in if int (tokens optimized) \<le> maxTokens
                then set_field ''tokenCount'' (JNum (int (tokens optimized))) optimized
                else
                  let optimized = reduceOperations optimized maxTokens
                  in set_field ''tokenCount'' (JNum (int (tokens optimized))) optimized)"

section \<open>Cache keys (cache/semantic-cache.ts)\<close>

text \<open>The code units below 256 that \<open>\s\<close> and \<open>trim\<close> treat as white space.\<close>

definition isWhiteSpace :: "char \<Rightarrow> bool" where
  "isWhiteSpace c = ((of_char c :: nat) \<in> set [9, 10, 11, 12, 13, 32, 160])"

definition trim :: "string \<Rightarrow> string" where
  "trim s = rev (dropWhile isWhiteSpace (rev (dropWhile isWhiteSpace s)))"

text \<open>\<open>replace(/\s+/g, ' ')\<close>: every maximal run of white space becomes one space.\<close>

function collapseWhitespace :: "string \<Rightarrow> string" where
  "collapseWhitespace [] = []"
| "collapseWhitespace (c # cs) =
     (if isWhiteSpace c then CHR '' '' # collapseWhitespace (dropWhile isWhiteSpace cs)
      else c # collapseWhitespace cs)"
  by pat_completeness auto
termination
  by (relation "measure length") (auto simp: length_dropWhile_le less_Suc_eq_le)

definition normalizePrompt :: "string \<Rightarrow> string" where
  "normalizePrompt prompt = toLowerCase (collapseWhitespace (trim prompt))"

text \<open>
  The object spread \<open>{...base, ...extra}\<close>: every property of \<open>extra\<close> is assigned in
  turn, replacing a property of the same name in place.
\<close>

definition spread :: "(string \<times> 'v) list \<Rightarrow> (string \<times> 'v) list \<Rightarrow> (string \<times> 'v) list" where
  "spread base extra = foldl (\<lambda>acc (k, v). assign k v acc) base extra"

definition keyData ::
  "string \<Rightarrow> string \<Rightarrow> json option \<Rightarrow> (string \<times> json) list option \<Rightarrow> json" where
  "keyData prompt model temperature additionalParams =
     obj (spread
            [(''prompt'', Some (JStr (normalizePrompt prompt))),
             (''model'', Some (JStr model)),
             (''temperature'', temperature)]
            (case additionalParams of
               None \<Rightarrow> []
             | Some ps \<Rightarrow> map (\<lambda>(k, v). (k, Some v)) ps))"

definition keyPrefix :: string where
  "keyPrefix = ''mcpgen:cache:''"

definition statsKey :: string where
  "statsKey = ''mcpgen:cache:stats''"

text \<open>
  \<open>createHash('sha256').update(s).digest('hex')\<close> belongs to the platform; it is the
  parameter \<open>sha256\<close> of the model.
\<close>

definition SemanticCache_generateKey ::
  "(string \<Rightarrow> string) \<Rightarrow> string \<Rightarrow> string \<Rightarrow> json option \<Rightarrow> (string \<times> json) list option \<Rightarrow> string" where
  "SemanticCache_generateKey sha256 prompt model temperature additionalParams =
     keyPrefix @ sha256 (JSON_stringify (keyData prompt model temperature additionalParams))"

definition MemoryCache_generateKey ::
  "(string \<Rightarrow> string) \<Rightarrow> string \<Rightarrow> string \<Rightarrow> json option \<Rightarrow> (string \<times> json) list option \<Rightarrow> string" where
  "MemoryCache_generateKey sha256 prompt model temperature additionalParams =
     sha256 (JSON_stringify (keyData prompt model temperature additionalParams))"

text \<open>The default \<open>temperature: number = 0.7\<close> of \<open>get\<close> and \<open>set\<close>.\<close>

definition temperatureOrDefault :: "json option \<Rightarrow> json option" where
  "temperatureOrDefault temperature =
     (case temperature of None \<Rightarrow> Some (JFrac ''0.7'') | Some t \<Rightarrow> Some t)"

section \<open>Cache entries and statistics\<close>

record Usage =
  u_promptTokens :: int
  u_completionTokens :: int
  u_totalTokens :: int
  u_cost :: rat

record LLMResponse =
  l_content :: string
  l_usage :: Usage
  l_model :: string

text \<open>Dates are milliseconds since the epoch.\<close>

record CacheEntry =
  e_key :: string
  e_value :: LLMResponse
  e_created :: int
  e_accessed :: int
  e_hits :: nat
  e_cost :: rat

record CacheStats =
  totalRequests :: nat
  hits :: nat
  misses :: nat
  hitRate :: rat
  costSavings :: rat
  storageUsed :: int

definition initialStats :: CacheStats where
  "initialStats =
     \<lparr>totalRequests = 0, hits = 0, misses = 0, hitRate = 0, costSavings = 0, storageUsed = 0\<rparr>"

definition updateHitRate :: "CacheStats \<Rightarrow> CacheStats" where
  "updateHitRate st =
     st\<lparr>hitRate := (if totalRequests st > 0
                     then rat_of_nat (hits st) / rat_of_nat (totalRequests st)
                     else 0)\<rparr>"

definition newEntry :: "string \<Rightarrow> LLMResponse \<Rightarrow> int \<Rightarrow> CacheEntry" where
  "newEntry key response now =
     \<lparr>e_key = key, e_value = response, e_created = now, e_accessed = now, e_hits = 0,
      e_cost = u_cost (l_usage response)\<rparr>"

section \<open>MemoryCache\<close>

text \<open>
  The \<open>Map\<close> is the list of its entries in insertion order. Every operation reads the
  clock; its reading is the parameter \<open>now\<close>. \<open>estimateEntrySize\<close> is
  \<open>JSON.stringify(entry).length\<close>, where dates and floating-point numbers are printed by
  the platform: it is the parameter \<open>entrySize\<close>.
\<close>

record MemoryCache =
  mc_cache :: "(string \<times> CacheEntry) list"
  mc_stats :: CacheStats
  mc_maxSize :: int
  mc_defaultTTL :: int

definition newMemoryCache :: "int \<Rightarrow> int \<Rightarrow> MemoryCache" where
  "newMemoryCache maxSize defaultTTL =
     \<lparr>mc_cache = [], mc_stats = initialStats, mc_maxSize = maxSize, mc_defaultTTL = defaultTTL\<rparr>"

definition isEntryValid :: "int \<Rightarrow> int \<Rightarrow> CacheEntry \<Rightarrow> bool" where
  "isEntryValid defaultTTL now entry = (now - e_created entry < defaultTTL)"

definition map_delete :: "string \<Rightarrow> (string \<times> 'v) list \<Rightarrow> (string \<times> 'v) list" where
  "map_delete key es = filter (\<lambda>(k, v). k \<noteq> key) es"

definition MemoryCache_get ::
  "(string \<Rightarrow> string) \<Rightarrow> int \<Rightarrow> string \<Rightarrow> string \<Rightarrow> json option \<Rightarrow> (string \<times> json) list option
   \<Rightarrow> MemoryCache \<Rightarrow> LLMResponse option \<times> MemoryCache" where
  "MemoryCache_get sha256 now prompt model temperature additionalParams c =
     (let st = (mc_stats c)\<lparr>totalRequests := totalRequests (mc_stats c) + 1\<rparr>;
          key = MemoryCache_generateKey sha256 prompt model
                  (temperatureOrDefault temperature) additionalParams
      in case map_of (mc_cache c) key of
           Some entry \<Rightarrow>
             if isEntryValid (mc_defaultTTL c) now entry
             then (Some (e_value entry),
                   c\<lparr>mc_cache :=
                        assign key (entry\<lparr>e_accessed := now, e_hits := e_hits entry + 1\<rparr>)
                          (mc_cache c),
                      mc_stats :=
                        st\<lparr>hits := hits st + 1,
                           costSavings := costSavings st + u_cost (l_usage (e_value entry))\<rparr>\<rparr>)
             else (None,
                   c\<lparr>mc_cache := map_delete key (mc_cache c),
                      mc_stats := st\<lparr>misses := misses st + 1\<rparr>\<rparr>)
         | None \<Rightarrow> (None, c\<lparr>mc_stats := st\<lparr>misses := misses st + 1\<rparr>\<rparr>))"

text \<open>The search loop of \<open>evictLRU\<close>, with its two variables.\<close>

fun oldestEntry :: "(string \<times> CacheEntry) list \<Rightarrow> string option \<Rightarrow> int \<Rightarrow> string option" where
  "oldestEntry [] oldestKey oldestTime = oldestKey"
| "oldestEntry ((key, entry) # es) oldestKey oldestTime =
     (if e_accessed entry < oldestTime
      then oldestEntry es (Some key) (e_accessed entry)
      else oldestEntry es oldestKey oldestTime)"

text \<open>\<open>if (oldestKey)\<close> is false for \<open>null\<close> and for the empty string.\<close>

definition evictLRU :: "(CacheEntry \<Rightarrow> nat) \<Rightarrow> int \<Rightarrow> MemoryCache \<Rightarrow> MemoryCache" where
  "evictLRU entrySize now c =
     (case oldestEntry (mc_cache c) None now of
        None \<Rightarrow> c
      | Some oldestKey \<Rightarrow>
          if oldestKey = [] then c
          else
            let st = (case map_of (mc_cache c) oldestKey of
                        Some entry \<Rightarrow>
                          (mc_stats c)\<lparr>storageUsed :=
                             storageUsed (mc_stats c) - int (entrySize entry)\<rparr>
                      | None \<Rightarrow> mc_stats c)
            in c\<lparr>mc_cache := map_delete oldestKey (mc_cache c), mc_stats := st\<rparr>)"

definition MemoryCache_set ::
  "(string \<Rightarrow> string) \<Rightarrow> (CacheEntry \<Rightarrow> nat) \<Rightarrow> int \<Rightarrow> string \<Rightarrow> string \<Rightarrow> LLMResponse
   \<Rightarrow> json option \<Rightarrow> (string \<times> json) list option \<Rightarrow> MemoryCache \<Rightarrow> MemoryCache" where
  "MemoryCache_set sha256 entrySize now prompt model response temperature additionalParams c =
     (let key = MemoryCache_generateKey sha256 prompt model
                  (temperatureOrDefault temperature) additionalParams;
          entry = newEntry key response now;
          c1 = (if int (length (mc_cache c)) \<ge> mc_maxSize c then evictLRU entrySize now c else c)
      in c1\<lparr>mc_cache := assign key entry (mc_cache c1),
            mc_stats := (mc_stats c1)\<lparr>storageUsed :=
                           storageUsed (mc_stats c1) + int (entrySize entry)\<rparr>\<rparr>)"


definition MemoryCache_clear :: "MemoryCache \<Rightarrow> MemoryCache" where
  "MemoryCache_clear c = c\<lparr>mc_cache := [], mc_stats := (mc_stats c)\<lparr>storageUsed := 0\<rparr>\<rparr>"

text \<open>
  A request is the argument list of \<open>get\<close> and \<open>set\<close>; the two folds run \<open>set\<close> and
  then \<open>get\<close> over a list of requests, each with the clock reading of its call.
\<close>

record Request =
  q_prompt :: string
  q_model :: string
  q_temperature :: "json option"
  q_additionalParams :: "(string \<times> json) list option"

definition requestKey :: "(string \<Rightarrow> string) \<Rightarrow> Request \<Rightarrow> string" where
  "requestKey sha256 q =
     MemoryCache_generateKey sha256 (q_prompt q) (q_model q)
       (temperatureOrDefault (q_temperature q)) (q_additionalParams q)"

fun setAll ::
  "(string \<Rightarrow> string) \<Rightarrow> (CacheEntry \<Rightarrow> nat) \<Rightarrow> (int \<times> Request \<times> LLMResponse) list
   \<Rightarrow> MemoryCache \<Rightarrow> MemoryCache" where
  "setAll sha256 entrySize [] c = c"
| "setAll sha256 entrySize ((now, q, response) # rest) c =
     setAll sha256 entrySize rest
       (MemoryCache_set sha256 entrySize now (q_prompt q) (q_model q) response
          (q_temperature q) (q_additionalParams q) c)"

fun getAll ::
  "(string \<Rightarrow> string) \<Rightarrow> (int \<times> Request) list \<Rightarrow> MemoryCache \<Rightarrow> MemoryCache" where
  "getAll sha256 [] c = c"
| "getAll sha256 ((now, q) # rest) c =
     getAll sha256 rest
       (snd (MemoryCache_get sha256 now (q_prompt q) (q_model q)
               (q_temperature q) (q_additionalParams q) c))"

section \<open>SemanticCache and the Redis store\<close>

text \<open>
  A rejected promise or a thrown exception is the left summand of a result.
\<close>

datatype error = Error string

text \<open>
  The store holds strings; a string parses to a cache entry, to a statistics object, or
  not at all (\<open>JSON.parse\<close> throws). An entry written with \<open>setEx\<close> carries the time at
  which it expires.
\<close>

datatype stored = StoredEntry CacheEntry | StoredStats CacheStats | Unparsable string

record Redis =
  isOpen :: bool
  available :: bool
  entries :: "(string \<times> stored \<times> int option) list"

text \<open>
  The commands of the client. \<open>connect\<close> rejects when the server cannot be reached, and
  so does a command on a client that is closed or has lost the server.
\<close>

definition reachable :: "Redis \<Rightarrow> bool" where
  "reachable r = (isOpen r \<and> available r)"

definition redis_connect :: "Redis \<Rightarrow> error + Redis" where
  "redis_connect r =
     (if available r then Inr (r\<lparr>isOpen := True\<rparr>) else Inl (Error ''ECONNREFUSED''))"

definition live :: "int \<Rightarrow> Redis \<Rightarrow> (string \<times> stored \<times> int option) list" where
  "live now r =
     filter (\<lambda>(k, v, expiry). case expiry of None \<Rightarrow> True | Some t \<Rightarrow> now < t) (entries r)"

definition redis_get :: "int \<Rightarrow> Redis \<Rightarrow> string \<Rightarrow> error + stored option" where
  "redis_get now r key =
     (if reachable r then Inr (map_option fst (map_of (live now r) key))
      else Inl (Error ''The client is closed''))"

definition redis_setEx :: "int \<Rightarrow> Redis \<Rightarrow> string \<Rightarrow> int \<Rightarrow> stored \<Rightarrow> error + Redis" where
  "redis_setEx now r key ttl v =
     (if reachable r
      then Inr (r\<lparr>entries := assign key (v, Some (now + ttl * 1000)) (entries r)\<rparr>)
      else Inl (Error ''The client is closed''))"

text \<open>The patterns of \<open>KEYS\<close>, with \<open>*\<close> and \<open>?\<close>; classes and escapes are not modelled.\<close>

fun glob :: "string \<Rightarrow> string \<Rightarrow> bool" where
  "glob [] s = (s = [])"
| "glob (p # ps) [] = (p = CHR ''*'' \<and> glob ps [])"
| "glob (p # ps) (c # cs) =
     (if p = CHR ''*'' then glob ps (c # cs) \<or> glob (p # ps) cs
      else (p = CHR ''?'' \<or> p = c) \<and> glob ps cs)"

definition redis_keys :: "int \<Rightarrow> Redis \<Rightarrow> string \<Rightarrow> error + string list" where
  "redis_keys now r pattern =
     (if reachable r then Inr (filter (glob pattern) (map fst (live now r)))
      else Inl (Error ''The client is closed''))"

definition redis_del :: "Redis \<Rightarrow> string list \<Rightarrow> error + Redis" where
  "redis_del r keys =
     (if reachable r then Inr (r\<lparr>entries := filter (\<lambda>(k, v). k \<notin> set keys) (entries r)\<rparr>)
      else Inl (Error ''The client is closed''))"

record SemanticCache =
  sc_redis :: Redis
  sc_stats :: CacheStats
  sc_defaultTTL :: int
  sc_console :: "(string \<times> error) list"

definition logError :: "string \<Rightarrow> error \<Rightarrow> SemanticCache \<Rightarrow> SemanticCache" where
  "logError msg e s = s\<lparr>sc_console := sc_console s @ [(msg, e)]\<rparr>"

text \<open>\<open>if (statsData)\<close> is false for a missing key and for the empty string.\<close>

definition loadStats :: "int \<Rightarrow> SemanticCache \<Rightarrow> SemanticCache" where
  "loadStats now s =
     (case redis_get now (sc_redis s) statsKey of
        Inl e \<Rightarrow> logError ''Error loading cache stats:'' e s
      | Inr None \<Rightarrow> s
      | Inr (Some (StoredStats savedStats)) \<Rightarrow> s\<lparr>sc_stats := savedStats\<rparr>
      | Inr (Some (StoredEntry entry)) \<Rightarrow> s
      | Inr (Some (Unparsable text)) \<Rightarrow>
          if text = [] then s
          else logError ''Error loading cache stats:'' (Error ''SyntaxError'') s)"

definition connect :: "int \<Rightarrow> SemanticCache \<Rightarrow> error + SemanticCache" where
  "connect now s =
     (if isOpen (sc_redis s) then Inr s
      else case redis_connect (sc_redis s) of
             Inl e \<Rightarrow> Inl e
           | Inr r \<Rightarrow> Inr (loadStats now (s\<lparr>sc_redis := r\<rparr>)))"





text \<open>\<open>ttl || this.defaultTTL\<close>.\<close>

definition SemanticCache_set ::
  "(string \<Rightarrow> string) \<Rightarrow> (CacheEntry \<Rightarrow> nat) \<Rightarrow> int \<Rightarrow> string \<Rightarrow> string \<Rightarrow> LLMResponse
   \<Rightarrow> json option \<Rightarrow> (string \<times> json) list option \<Rightarrow> int option
   \<Rightarrow> SemanticCache \<Rightarrow> error + SemanticCache" where
  "SemanticCache_set sha256 entrySize now prompt model response temperature additionalParams ttl s =
     (case connect now s of
        Inl e \<Rightarrow> Inl e
      | Inr s1 \<Rightarrow>
          let key = SemanticCache_generateKey sha256 prompt model
                      (temperatureOrDefault temperature) additionalParams;
              entry = newEntry key response now;
              ttlToUse = (case ttl of
                            None \<Rightarrow> sc_defaultTTL s1
                          | Some t \<Rightarrow> if t = 0 then sc_defaultTTL s1 else t)
          in Inr (case redis_setEx now (sc_redis s1) key ttlToUse (StoredEntry entry) of
                    Inl e \<Rightarrow> logError ''Cache set error:'' e s1
                  | Inr r \<Rightarrow>
                      s1\<lparr>sc_redis := r,
                         sc_stats :=
                           (sc_stats s1)\<lparr>storageUsed :=
                              storageUsed (sc_stats s1) + int (entrySize entry)\<rparr>\<rparr>))"

definition SemanticCache_getStats :: "SemanticCache \<Rightarrow> CacheStats \<times> SemanticCache" where
  "SemanticCache_getStats s =
     (let st = updateHitRate (sc_stats s) in (st, s\<lparr>sc_stats := st\<rparr>))"

definition resetStorage :: "SemanticCache \<Rightarrow> SemanticCache" where
  "resetStorage s = s\<lparr>sc_stats := (sc_stats s)\<lparr>storageUsed := 0\<rparr>\<rparr>"

text \<open>
  Both branches of \<open>clear\<close> ask for the keys that match the prefix, the pattern (empty
  when there is none) and a star.
\<close>

definition SemanticCache_clear ::
  "int \<Rightarrow> string option \<Rightarrow> SemanticCache \<Rightarrow> error + SemanticCache" where
  "SemanticCache_clear now pattern s =
     (case connect now s of
        Inl e \<Rightarrow> Inl e
      | Inr s1 \<Rightarrow>
          Inr (case redis_keys now (sc_redis s1)
                      (keyPrefix @ (case pattern of None \<Rightarrow> [] | Some p \<Rightarrow> p) @ ''*'') of
                 Inl e \<Rightarrow> logError ''Cache clear error:'' e s1
               | Inr keys \<Rightarrow>
                   if length keys > 0
                   then (case redis_del (sc_redis s1) keys of
                           Inl e \<Rightarrow> logError ''Cache clear error:'' e s1
                         | Inr r \<Rightarrow> resetStorage (s1\<lparr>sc_redis := r\<rparr>))
                   else resetStorage s1))"

text \<open>
  The keys of the cache that are in the store and have not expired, and the statistics
  that record the past gets.
\<close>

definition cacheKeys :: "int \<Rightarrow> SemanticCache \<Rightarrow> string list" where
  "cacheKeys now s =
     filter (\<lambda>k. take (length keyPrefix) k = keyPrefix) (map fst (live now (sc_redis s)))"

definition history :: "CacheStats \<Rightarrow> nat \<times> nat \<times> nat \<times> rat" where
  "history st = (totalRequests st, hits st, misses st, costSavings st)"

section \<open>DocumentationGenerator (services/documentation-generator.ts)\<close>

record MCPParameter =
  prm_name :: string
  prm_type :: string
  prm_description :: "string option"
  prm_required :: bool

record MCPTool =
  t_name :: string
  t_description :: string
  t_parameters :: "MCPParameter list"

record ParameterDoc =
  pd_name :: string
  pd_type :: string
  pd_required :: bool
  pd_description :: string
  pd_example :: json
  pd_validation :: "string option"

record CodeExample =
  ce_title :: string
  ce_description :: string
  ce_code :: string
  ce_language :: string
  ce_output :: "string option"

record ErrorCase =
  ec_scenario :: string
  ec_error :: string
  ec_solution :: string
  ec_code :: "string option"

record ToolDocumentation =
  td_toolName :: string
  td_description :: string
  td_usage :: string
  td_parameters :: "ParameterDoc list"
  td_examples :: "CodeExample list"
  td_errorCases :: "ErrorCase list"
  td_bestPractices :: "string list"

record GenerationOptions =
  go_maxTokens :: "int option"
  go_temperature :: "rat option"

definition generateExampleValue :: "string \<Rightarrow> json" where
  "generateExampleValue ty =
     (let t = toLowerCase ty
      in if t = ''string'' then JStr ''example-value''
         else if t = ''number'' then JNum 42
         else if t = ''boolean'' then JBool True
         else if t = ''array'' then JArr [JStr ''item1'', JStr ''item2'']
         else if t = ''object'' then JObj [(''key'', JStr ''value'')]
         else JStr ''example'')"

definition convertToolParameters :: "MCPTool \<Rightarrow> ParameterDoc list" where
  "convertToolParameters tool =
     map (\<lambda>param.
            \<lparr>pd_name = prm_name param,
             pd_type = prm_type param,
             pd_required = prm_required param,
             pd_description = or_else (prm_description param) (prm_name param @ '' parameter''),
             pd_example = generateExampleValue (prm_type param),
             pd_validation = None\<rparr>)
         (t_parameters tool)"

text \<open>\<open>replace(/([A-Z])/g, ' $1')\<close>: a space before every capital letter.\<close>

definition spaceCapitals :: "string \<Rightarrow> string" where
  "spaceCapitals s =
     concat (map (\<lambda>c. if 65 \<le> (of_char c :: nat) \<and> (of_char c :: nat) \<le> 90
                       then [CHR '' '', c] else [c]) s)"

definition generateFallbackToolDoc :: "MCPTool \<Rightarrow> ToolDocumentation" where
  "generateFallbackToolDoc tool =
     \<lparr>td_toolName = t_name tool,
      td_description = or_else (Some (t_description tool)) (''Tool for '' @ t_name tool),
      td_usage = ''Use this tool to '' @ trim (spaceCapitals (toLowerCase (t_name tool))),
      td_parameters = convertToolParameters tool,
      td_examples = [],
      td_errorCases = [],
      td_bestPractices =
        [''Validate all required parameters before calling'',
         ''Handle errors gracefully'',
         ''Use appropriate timeout values'']\<rparr>"

text \<open>
  What the generator is built from. The provider, the cache (either class, with its
  state \<open>'c\<close>), the prompt templates, the parsers of a model's answer and the platform's
  \<open>JSON.parse\<close> and \<open>JSON.stringify\<close> on documents are parameters.
\<close>

record 'c DocumentationGenerator =
  dg_generate :: "string \<Rightarrow> GenerationOptions \<Rightarrow> error + LLMResponse"
  dg_providerName :: string
  dg_cache_get :: "'c \<Rightarrow> string \<Rightarrow> string \<Rightarrow> error + (LLMResponse option \<times> 'c)"
  dg_cache_set :: "'c \<Rightarrow> string \<Rightarrow> string \<Rightarrow> LLMResponse \<Rightarrow> error + 'c"
  dg_renderToolDocPrompt :: "MCPTool \<Rightarrow> string"
  dg_renderExamplePrompt :: "MCPTool \<Rightarrow> string \<Rightarrow> string \<Rightarrow> string"
  dg_parseToolDocumentation :: "string \<Rightarrow> MCPTool \<Rightarrow> ToolDocumentation"
  dg_parseCodeExample :: "string \<Rightarrow> MCPTool \<Rightarrow> string \<Rightarrow> CodeExample"
  dg_parseToolDocJSON :: "string \<Rightarrow> error + ToolDocumentation"
  dg_parseExampleJSON :: "string \<Rightarrow> error + CodeExample"
  dg_stringifyToolDoc :: "ToolDocumentation \<Rightarrow> string"
  dg_stringifyExample :: "CodeExample \<Rightarrow> string"

definition toolDocKey :: "MCPTool \<Rightarrow> string" where
  "toolDocKey tool = ''tool-doc-'' @ t_name tool @ ''-'' @ take 50 (t_description tool)"

definition toolDocWarning :: "MCPTool \<Rightarrow> string" where
  "toolDocWarning tool = ''Failed to generate docs for tool '' @ t_name tool @ '':''"

text \<open>
  The loop of \<open>generateToolDocumentation\<close>, with the list built so far, the cache and
  the console. \<open>cache.get\<close> and the \<open>JSON.parse\<close> of a cached answer stand outside the
  \<open>try\<close>; \<open>cache.set\<close> stands inside it, after the \<open>push\<close>.
\<close>

fun toolDocumentationLoop ::
  "'c DocumentationGenerator \<Rightarrow> MCPTool list \<Rightarrow> ToolDocumentation list \<Rightarrow> 'c
   \<Rightarrow> (string \<times> error) list
   \<Rightarrow> error + (ToolDocumentation list \<times> 'c \<times> (string \<times> error) list)" where
  "toolDocumentationLoop g [] toolDocs c console = Inr (toolDocs, c, console)"
| "toolDocumentationLoop g (tool # rest) toolDocs c console =
     (case dg_cache_get g c (toolDocKey tool) (dg_providerName g) of
        Inl e \<Rightarrow> Inl e
      | Inr (Some cached, c1) \<Rightarrow>
          (case dg_parseToolDocJSON g (l_content cached) of
             Inl e \<Rightarrow> Inl e
           | Inr d \<Rightarrow> toolDocumentationLoop g rest (toolDocs @ [d]) c1 console)
      | Inr (None, c1) \<Rightarrow>
          (case dg_generate g (dg_renderToolDocPrompt g tool)
                  \<lparr>go_maxTokens = Some 1500, go_temperature = Some (2 / 10)\<rparr> of
             Inl e \<Rightarrow>
               toolDocumentationLoop g rest (toolDocs @ [generateFallbackToolDoc tool]) c1
                 (console @ [(toolDocWarning tool, e)])
           | Inr response \<Rightarrow>
               (let toolDoc = dg_parseToolDocumentation g (l_content response) tool
                in case dg_cache_set g c1 (toolDocKey tool) (dg_providerName g)
                          (response\<lparr>l_content := dg_stringifyToolDoc g toolDoc\<rparr>) of
                     Inl e \<Rightarrow>
                       toolDocumentationLoop g rest
                         (toolDocs @ [toolDoc, generateFallbackToolDoc tool]) c1
                         (console @ [(toolDocWarning tool, e)])
                   | Inr c2 \<Rightarrow> toolDocumentationLoop g rest (toolDocs @ [toolDoc]) c2 console)))"

definition generateToolDocumentation ::
  "'c DocumentationGenerator \<Rightarrow> MCPTool list \<Rightarrow> 'c
   \<Rightarrow> error + (ToolDocumentation list \<times> 'c \<times> (string \<times> error) list)" where
  "generateToolDocumentation g tools c = toolDocumentationLoop g tools [] c []"

definition exampleKey :: "MCPTool \<Rightarrow> string \<Rightarrow> string" where
  "exampleKey tool language = ''example-'' @ t_name tool @ ''-'' @ language"

definition exampleWarning :: "MCPTool \<Rightarrow> string" where
  "exampleWarning tool = ''Failed to generate example for tool '' @ t_name tool @ '':''"

text \<open>The loop of \<open>generateCodeExamples\<close>; its \<open>catch\<close> only writes a warning.\<close>

fun codeExamplesLoop ::
  "'c DocumentationGenerator \<Rightarrow> string \<Rightarrow> string \<Rightarrow> MCPTool list \<Rightarrow> CodeExample list \<Rightarrow> 'c
   \<Rightarrow> (string \<times> error) list
   \<Rightarrow> error + (CodeExample list \<times> 'c \<times> (string \<times> error) list)" where
  "codeExamplesLoop g language projectName [] examples c console = Inr (examples, c, console)"
| "codeExamplesLoop g language projectName (tool # rest) examples c console =
     (case dg_cache_get g c (exampleKey tool language) (dg_providerName g) of
        Inl e \<Rightarrow> Inl e
      | Inr (Some cached, c1) \<Rightarrow>
          (case dg_parseExampleJSON g (l_content cached) of
             Inl e \<Rightarrow> Inl e
           | Inr x \<Rightarrow> codeExamplesLoop g language projectName rest (examples @ [x]) c1 console)
      | Inr (None, c1) \<Rightarrow>
          (case dg_generate g (dg_renderExamplePrompt g tool language projectName)
                  \<lparr>go_maxTokens = Some 800, go_temperature = Some (4 / 10)\<rparr> of
             Inl e \<Rightarrow>
               codeExamplesLoop g language projectName rest examples c1
                 (console @ [(exampleWarning tool, e)])
           | Inr response \<Rightarrow>
               (let example = dg_parseCodeExample g (l_content response) tool language
                in case dg_cache_set g c1 (exampleKey tool language) (dg_providerName g)
                          (response\<lparr>l_content := dg_stringifyExample g example\<rparr>) of
                     Inl e \<Rightarrow>
                       codeExamplesLoop g language projectName rest (examples @ [example]) c1
                         (console @ [(exampleWarning tool, e)])
                   | Inr c2 \<Rightarrow>
                       codeExamplesLoop g language projectName rest (examples @ [example]) c2
                         console)))"

text \<open>\<open>maxExamples = 5\<close>: only the first five tools are visited.\<close>

definition generateCodeExamples ::
  "'c DocumentationGenerator \<Rightarrow> string \<Rightarrow> string \<Rightarrow> MCPTool list \<Rightarrow> 'c
   \<Rightarrow> error + (CodeExample list \<times> 'c \<times> (string \<times> error) list)" where
  "generateCodeExamples g language projectName tools c =
     codeExamplesLoop g language projectName (take 5 tools) [] c []"

text \<open>
  The process-local cache as the generator's cache, at a fixed clock reading: neither
  operation throws.
\<close>

definition memoryCacheGet ::
  "(string \<Rightarrow> string) \<Rightarrow> int \<Rightarrow> MemoryCache \<Rightarrow> string \<Rightarrow> string
   \<Rightarrow> error + (LLMResponse option \<times> MemoryCache)" where
  "memoryCacheGet sha256 now c prompt model = Inr (MemoryCache_get sha256 now prompt model None None c)"

definition memoryCacheSet ::
  "(string \<Rightarrow> string) \<Rightarrow> (CacheEntry \<Rightarrow> nat) \<Rightarrow> int \<Rightarrow> MemoryCache \<Rightarrow> string \<Rightarrow> string
   \<Rightarrow> LLMResponse \<Rightarrow> error + MemoryCache" where
  "memoryCacheSet sha256 entrySize now c prompt model response =
     Inr (MemoryCache_set sha256 entrySize now prompt model response None None c)"

section \<open>IntelligenceService (intelligence-service.ts)\<close>

text \<open>
  Of a provider, its \<open>generate\<close> and the two rates of \<open>getCapabilities().costPerToken\<close>;
  \<open>estimateCost\<close> is the same formula in the three providers (the local one has both
  rates zero).
\<close>

record LLMProvider =
  lp_generate :: "string \<Rightarrow> GenerationOptions \<Rightarrow> error + LLMResponse"
  lp_costInput :: rat
  lp_costOutput :: rat






record ValidationIssue =
  vi_type :: string
  vi_severity :: string
  vi_message :: string
  vi_suggestion :: "string option"


record OptimizationHint =
  oh_category :: string
  oh_suggestion :: string
  oh_impact :: string
  oh_implementation :: string
  oh_estimatedGain :: string



record IntelligenceMetrics =
  requestCount :: nat
  successRate :: rat
  averageLatency :: rat
  totalCost :: rat
  featureUsage :: "(string \<times> nat) list"

text \<open>
  The state of the service: the feature switches, \<open>config.costs\<close>, the metrics, the
  console, and the prompts that were passed to a provider's \<open>generate\<close>.
\<close>

record Service =
  sv_documentation :: bool
  sv_examples :: bool
  sv_implementation :: bool
  sv_validation :: bool
  sv_maxMonthly :: rat
  sv_alertThreshold :: rat
  sv_metrics :: IntelligenceMetrics
  sv_console :: "(string \<times> error) list"
  sv_calls :: "string list"



definition callGenerate ::
  "LLMProvider \<Rightarrow> string \<Rightarrow> GenerationOptions \<Rightarrow> Service \<Rightarrow> (error + LLMResponse) \<times> Service" where
  "callGenerate provider prompt options sv =
     (lp_generate provider prompt options, sv\<lparr>sv_calls := sv_calls sv @ [prompt]\<rparr>)"













section \<open>Properties that the theorems state\<close>

text \<open>
  The lengths of the descriptions of a minified specification: every operation summary
  within \<open>a\<close>, every parameter description within \<open>b\<close>, every response description
  within \<open>c\<close>.
\<close>

definition lengthWithin :: "nat \<Rightarrow> string option \<Rightarrow> bool" where
  "lengthWithin n d = (case d of None \<Rightarrow> True | Some s \<Rightarrow> length s \<le> n)"

definition operationWithin :: "nat \<Rightarrow> nat \<Rightarrow> nat \<Rightarrow> MinifiedOperation \<Rightarrow> bool" where
  "operationWithin a b c op =
     (lengthWithin a (op_summary op)
      \<and> (case op_parameters op of
            None \<Rightarrow> True
          | Some ps \<Rightarrow> list_all (\<lambda>p. lengthWithin b (p_description p)) ps)
      \<and> list_all (\<lambda>(code, r). lengthWithin c (r_description r)) (op_responses op))"

definition descriptionsWithin :: "nat \<Rightarrow> nat \<Rightarrow> nat \<Rightarrow> MinifiedSpec \<Rightarrow> bool" where
  "descriptionsWithin a b c m =
     list_all (\<lambda>p. list_all (operationWithin a b c) (pt_operations p)) (m_paths m)"

text \<open>The length of the serialisation of a value, and of one entry of an object.\<close>

definition jlength :: "json \<Rightarrow> nat" where
  "jlength j = length (JSON_stringify j)"

definition entryLength :: "string \<times> json \<Rightarrow> nat" where
  "entryLength kv = length (quote (fst kv)) + 1 + jlength (snd kv)"

text \<open>
  The result of the later part of a loop, placed after the items and the console lines
  of its earlier part.
\<close>

definition after :: "'a list \<Rightarrow> 'l list \<Rightarrow> error + ('a list \<times> 'c \<times> 'l list)
    \<Rightarrow> error + ('a list \<times> 'c \<times> 'l list)" where
  "after items console x = map_sum id (\<lambda>(d, c, l). (items @ d, c, console @ l)) x"

section \<open>Inputs for the concrete checks\<close>

text \<open>
  A document with one \<open>GET\<close> operation whose summary has 201 characters, whose
  parameter description has 51 and whose response description has 101.
\<close>

definition longOperation :: OperationObject where
  "longOperation =
     \<lparr>o_operationId = Some ''getA'',
      o_summary = Some (replicate 201 CHR ''s''),
      o_parameters =
        Some [Parameter ''id'' ''query'' None None (Some (replicate 51 CHR ''p''))],
      o_requestBody = None,
      o_responses = [(''200'', Response (Some (replicate 101 CHR ''r'')) None)]\<rparr>"

definition longDocument :: Document where
  "longDocument =
     \<lparr>d_title = ''A'', d_version = ''1'', d_description = None,
      d_paths = Some [(''/a'', Some [(''get'', Some longOperation)])],
      d_schemas = None\<rparr>"

text \<open>A document with a title, a version and an empty \<open>paths\<close> object.\<close>

definition bareDocument :: Document where
  "bareDocument =
     \<lparr>d_title = ''abcdef'', d_version = ''1'', d_description = None,
      d_paths = Some [], d_schemas = None\<rparr>"

text \<open>
  A stand-in for the digest in the concrete checks: the first 64 characters of the
  text, padded with zeros.
\<close>

definition paddedDigest :: "string \<Rightarrow> string" where
  "paddedDigest s = take 64 (s @ replicate 64 CHR ''0'')"

text \<open>Three requests with different prompts, and an answer that cost 3/100.\<close>

definition requestA :: Request where
  "requestA = \<lparr>q_prompt = ''a'', q_model = ''m'', q_temperature = None, q_additionalParams = None\<rparr>"

definition requestB :: Request where
  "requestB = \<lparr>q_prompt = ''b'', q_model = ''m'', q_temperature = None, q_additionalParams = None\<rparr>"

definition requestC :: Request where
  "requestC = \<lparr>q_prompt = ''c'', q_model = ''m'', q_temperature = None, q_additionalParams = None\<rparr>"

definition paidResponse :: LLMResponse where
  "paidResponse =
     \<lparr>l_content = ''ok'',
      l_usage = \<lparr>u_promptTokens = 10, u_completionTokens = 5, u_totalTokens = 15, u_cost = 3 / 100\<rparr>,
      l_model = ''m''\<rparr>"

text \<open>A stand-in for the size of an entry in the concrete checks.\<close>

definition contentSize :: "CacheEntry \<Rightarrow> nat" where
  "contentSize entry = length (l_content (e_value entry))"

text \<open>
  A shared cache that holds one entry and whose connection is open, with the server
  lost; and the same cache before it has connected.
\<close>

definition lostCache :: SemanticCache where
  "lostCache =
     \<lparr>sc_redis =
        \<lparr>isOpen = True, available = False,
         entries = [(''mcpgen:cache:k'', StoredEntry (newEntry ''mcpgen:cache:k'' paidResponse 0), None)]\<rparr>,
      sc_stats = initialStats\<lparr>storageUsed := 7\<rparr>,
      sc_defaultTTL = 3600,
      sc_console = []\<rparr>"


text \<open>
  A generator over the process-local cache at clock reading 0, with a provider that
  fails for the tool named \<open>bad\<close> and answers for every other tool.
\<close>

definition demoTool :: "string \<Rightarrow> MCPTool" where
  "demoTool name =
     \<lparr>t_name = name, t_description = ''A tool'',
      t_parameters = [\<lparr>prm_name = ''id'', prm_type = ''String'', prm_description = None,
                       prm_required = True\<rparr>]\<rparr>"

definition demoGenerate :: "string \<Rightarrow> GenerationOptions \<Rightarrow> error + LLMResponse" where
  "demoGenerate prompt options =
     (if prompt = ''doc:bad'' \<or> prompt = ''example:bad'' then Inl (Error ''network'')
      else Inr (paidResponse\<lparr>l_content := prompt\<rparr>))"

definition demoToolDoc :: "string \<Rightarrow> string \<Rightarrow> ToolDocumentation" where
  "demoToolDoc name text =
     \<lparr>td_toolName = name, td_description = text, td_usage = [], td_parameters = [],
      td_examples = [], td_errorCases = [], td_bestPractices = []\<rparr>"

definition demoExample :: "string \<Rightarrow> string \<Rightarrow> CodeExample" where
  "demoExample text language =
     \<lparr>ce_title = ''Example'', ce_description = [], ce_code = text, ce_language = language,
      ce_output = None\<rparr>"

definition demoGenerator :: "MemoryCache DocumentationGenerator" where
  "demoGenerator =
     \<lparr>dg_generate = demoGenerate,
      dg_providerName = ''OpenAIProvider'',
      dg_cache_get = memoryCacheGet paddedDigest 0,
      dg_cache_set = memoryCacheSet paddedDigest contentSize 0,
      dg_renderToolDocPrompt = (\<lambda>tool. ''doc:'' @ t_name tool),
      dg_renderExamplePrompt = (\<lambda>tool language projectName. ''example:'' @ t_name tool),
      dg_parseToolDocumentation = (\<lambda>text tool. demoToolDoc (t_name tool) text),
      dg_parseCodeExample = (\<lambda>text tool language. demoExample text language),
      dg_parseToolDocJSON = (\<lambda>text. Inr (demoToolDoc [] text)),
      dg_parseExampleJSON = (\<lambda>text. Inr (demoExample text [])),
      dg_stringifyToolDoc = td_description,
      dg_stringifyExample = ce_code\<rparr>"






section \<open>Lengths of descriptions\<close>

lemma truncateDescription_within: "lengthWithin (n + 3) (truncateDescription d n)"
  by (auto simp: lengthWithin_def truncateDescription_def split: option.splits)

lemma minifyResponses_within:
  "list_all (\<lambda>(code, r). lengthWithin 103 (r_description r)) (minifyResponses rs)"
proof (induction rs rule: minifyResponses.induct)
  case (3 code descr content rs)
  then show ?case using truncateDescription_within [of 100 descr] by simp
qed simp_all

lemma minifyParameter_within: "lengthWithin 53 (p_description (minifyParameter p))"
proof (cases p)
  case (ParameterRef r)
  then show ?thesis by (simp add: lengthWithin_def)
next
  case (Parameter name loc req schema descr)
  then show ?thesis using truncateDescription_within [of 50 descr] by simp
qed

lemma minifyParameters_within:
  "case minifyParameters ps of
     None \<Rightarrow> True
   | Some qs \<Rightarrow> list_all (\<lambda>p. lengthWithin 53 (p_description p)) qs"
  by (cases ps) (simp_all add: minifyParameters_def list_all_iff minifyParameter_within)

lemma minifyOperation_within: "operationWithin 203 53 103 (minifyOperation method op)"
  using truncateDescription_within [of 200 "o_summary op"]
    minifyParameters_within [of "o_parameters op"]
    minifyResponses_within [of "o_responses op"]
  by (simp add: operationWithin_def minifyOperation_def)

lemma minifyOperations_within: "list_all (operationWithin 203 53 103) (minifyOperations es)"
  by (induction es rule: minifyOperations.induct)
     (auto simp: minifyOperation_within split: option.splits)

lemma minifyPaths_within:
  "list_all (\<lambda>p. list_all (operationWithin 203 53 103) (pt_operations p)) (minifyPaths ps)"
  by (induction ps rule: minifyPaths.induct)
     (auto simp: minifyOperations_within Let_def split: option.splits)

text \<open>
  C9, as the code has it: \<open>truncateDescription\<close> keeps the first \<open>maxLength\<close> characters
  and appends three dots, so in every specification produced by \<open>minify\<close> an operation
  summary has at most 203 characters, a parameter description at most 53 and a response
  description at most 103.
\<close>

theorem minify_descriptions_bounded: "descriptionsWithin 203 53 103 (minify spec)"
  by (simp add: descriptionsWithin_def minify_def Let_def minifyPaths_within)

theorem minify_descriptions_bounded_witness:
  "descriptionsWithin 203 53 103 (minify longDocument)
   \<and> map (\<lambda>p. map (\<lambda>op. map_option length (op_summary op)) (pt_operations p))
         (m_paths (minify longDocument)) = [[Some 203]]"
proof -
  have "map (\<lambda>p. map (\<lambda>op. map_option length (op_summary op)) (pt_operations p))
          (m_paths (minify longDocument)) = [[Some 203]]"
    by (simp add: minify_def longDocument_def longOperation_def Let_def isHttpMethod_def
        toLowerCase_def lower_char_def minifyOperation_def truncateDescription_def)
  with minify_descriptions_bounded [of longDocument] show ?thesis by simp
qed

text \<open>
  C9 as it is stated (200, 50 and 100 characters) fails on the document with the long
  descriptions: the three results have 203, 53 and 103 characters.
\<close>

theorem minify_descriptions_counterexample:
  "\<not> descriptionsWithin 200 53 103 (minify longDocument)
   \<and> \<not> descriptionsWithin 203 50 103 (minify longDocument)
   \<and> \<not> descriptionsWithin 203 53 100 (minify longDocument)"
  by (simp add: descriptionsWithin_def operationWithin_def lengthWithin_def minify_def
      longDocument_def longOperation_def Let_def isHttpMethod_def toLowerCase_def
      lower_char_def minifyOperation_def minifyParameters_def truncateDescription_def)

section \<open>The token estimate of a minified specification\<close>

text \<open>
  C3, as the code has it: the \<open>tokenCount\<close> that \<open>minify\<close> stores is the estimate
  \<open>ceil(length / 4)\<close> of the serialisation taken while the field still holds 0, where
  \<open>length\<close> counts the code units of the string.
\<close>

theorem minify_tokenCount:
  "m_tokenCount (minify spec)
   = int (estimateTokens (JSON_stringify (spec_json ((minify spec)\<lparr>m_tokenCount := 0\<rparr>))))"
  by (simp add: minify_def Let_def)

theorem minify_tokenCount_witness:
  "m_tokenCount (minify bareDocument)
   = int (estimateTokens (JSON_stringify (spec_json ((minify bareDocument)\<lparr>m_tokenCount := 0\<rparr>))))
   \<and> m_tokenCount (minify bareDocument) = 20"
proof -
  have "m_tokenCount (minify bareDocument) = 20" by code_simp
  with minify_tokenCount [of bareDocument] show ?thesis by simp
qed

text \<open>
  C3 as it is stated fails: for the document with a title, a version and no paths, \<open>minify\<close>
  stores 20 while the estimate of the result's own serialisation is 21, and
  \<open>minifyForOperation\<close> stores 0 while the estimate of its result is 20.
\<close>

theorem tokenCount_counterexample:
  "m_tokenCount (minify bareDocument) = 20
   \<and> tokens (spec_json (minify bareDocument)) = 21
   \<and> m_tokenCount (minifyForOperation bareDocument []) = 0
   \<and> tokens (spec_json (minifyForOperation bareDocument [])) = 20"
  by code_simp

section \<open>Cache keys\<close>



section \<open>The stages of optimizeForTokenLimit\<close>

lemma length_join:
  "length (join sep xs) = sum_list (map length xs) + length sep * (length xs - 1)"
  by (induction sep xs rule: join.induct) simp_all

lemma jlength_JArr:
  "jlength (JArr xs) = sum_list (map jlength xs) + (length xs - 1) + 2"
proof -
  have "length \<circ> JSON_stringify = jlength"
    by (simp add: fun_eq_iff jlength_def)
  then show ?thesis by (simp add: jlength_def length_join)
qed

lemma jlength_JObj:
  "jlength (JObj kvs) = sum_list (map entryLength kvs) + (length kvs - 1) + 2"
proof -
  have "length \<circ> (\<lambda>(k, v). quote k @ '':'' @ JSON_stringify v) = entryLength"
    by (auto simp: fun_eq_iff entryLength_def jlength_def)
  then show ?thesis by (simp add: jlength_def length_join)
qed

lemma sum_list_filter_le:
  fixes f :: "'a \<Rightarrow> nat"
  shows "sum_list (map f (filter P xs)) \<le> sum_list (map f xs)"
  by (induction xs) auto

lemma sum_list_map_mono:
  fixes f g :: "'a \<Rightarrow> nat"
  assumes "\<And>x. x \<in> set xs \<Longrightarrow> f x \<le> g x"
  shows "sum_list (map f xs) \<le> sum_list (map g xs)"
  using assms by (induction xs) (auto intro: add_mono)

lemma removeDescriptionsRecursive_length:
  "jlength (removeDescriptionsRecursive j) \<le> jlength j"
proof (induction j rule: removeDescriptionsRecursive.induct)
  case (1 kvs)
  define keep where "keep = filter (\<lambda>(k, v). k \<noteq> ''description'') kvs"
  define f where "f = (\<lambda>(k :: string, v). (k, removeDescriptionsRecursive v))"
  have ih: "\<And>k v. (k, v) \<in> set keep \<Longrightarrow> jlength (removeDescriptionsRecursive v) \<le> jlength v"
    using 1 by (auto simp: keep_def)
  have "sum_list (map (entryLength \<circ> f) keep) \<le> sum_list (map entryLength keep)"
    by (rule sum_list_map_mono) (auto simp: f_def entryLength_def dest: ih)
  moreover have "sum_list (map entryLength keep) \<le> sum_list (map entryLength kvs)"
    unfolding keep_def by (rule sum_list_filter_le)
  moreover have "length keep - 1 \<le> length kvs - 1"
    unfolding keep_def by (simp add: diff_le_mono)
  moreover have "removeDescriptionsRecursive (JObj kvs) = JObj (map f keep)"
    by (simp add: keep_def f_def)
  ultimately show ?case
    by (simp add: jlength_JObj)
next
  case (2 xs)
  have "sum_list (map (jlength \<circ> removeDescriptionsRecursive) xs) \<le> sum_list (map jlength xs)"
    by (rule sum_list_map_mono) (use 2 in auto)
  then show ?case
    by (simp add: jlength_JArr)
qed simp_all

lemma length_quote: "2 \<le> length (quote s)"
  by (simp add: quote_def)

lemma entryLength_ge: "3 \<le> entryLength kv"
  using length_quote [of "fst kv"] by (simp add: entryLength_def)

lemma map_of_entry_le:
  assumes "map_of kvs k = Some v"
  shows "entryLength (k, v) \<le> sum_list (map entryLength kvs)"
proof -
  have "(k, v) \<in> set kvs" using assms by (rule map_of_SomeD)
  then have "entryLength (k, v) \<in> set (map entryLength kvs)" by force
  then show ?thesis by (rule member_le_sum_list) simp
qed

lemma assign_sum_le:
  assumes "map_of kvs k = Some v" and "jlength v' \<le> jlength v"
  shows "sum_list (map entryLength (assign k v' kvs)) \<le> sum_list (map entryLength kvs)
         \<and> length (assign k v' kvs) = length kvs"
  using assms by (induction kvs) (auto simp: entryLength_def split: if_splits)

lemma assign_length_le:
  assumes "map_of kvs k = Some v" and "jlength v' \<le> jlength v"
  shows "jlength (JObj (assign k v' kvs)) \<le> jlength (JObj kvs)"
  using assign_sum_le [OF assms] by (simp add: jlength_JObj)


lemma quote_lengths:
  "length (quote ''properties'') = 12" "length (quote ''type'') = 6"
  "length (quote ''object'') = 8"
  by (simp_all add: quote_def escape_char_def)

lemma sum_entryLength_drop:
  "sum_list (map entryLength kvs)
   = sum_list (map entryLength (take n kvs)) + sum_list (map entryLength (drop n kvs))"
proof -
  have "sum_list (map entryLength (take n kvs @ drop n kvs))
        = sum_list (map entryLength (take n kvs)) + sum_list (map entryLength (drop n kvs))"
    unfolding map_append sum_list_append ..
  then show ?thesis by simp
qed

lemma sum_entryLength_ge: "3 * length kvs \<le> sum_list (map entryLength kvs)"
proof (induction kvs)
  case (Cons kv kvs)
  then show ?case using entryLength_ge [of kv] by simp
qed simp

lemma take5_length:
  assumes "10 < length props"
  shows "jlength (JObj [(''type'', JStr ''object''), (''properties'', JObj (take 5 props))]) + 8
         \<le> 15 + jlength (JObj props)"
proof -
  have a: "jlength (JObj [(''type'', JStr ''object''), (''properties'', JObj (take 5 props))])
           = 31 + jlength (JObj (take 5 props))"
    by (simp add: jlength_JObj [of "[(''type'', JStr ''object''), (''properties'', JObj (take 5 props))]"]
        entryLength_def quote_lengths jlength_def [of "JStr ''object''"])
  have b: "jlength (JObj (take 5 props)) = sum_list (map entryLength (take 5 props)) + 6"
    using assms by (simp add: jlength_JObj [of "take 5 props"])
  have c: "jlength (JObj props)
           = sum_list (map entryLength (take 5 props)) + sum_list (map entryLength (drop 5 props))
             + (length props - 1) + 2"
    using sum_entryLength_drop [of props 5] by (simp add: jlength_JObj [of props])
  have d: "3 * (length props - 5) \<le> sum_list (map entryLength (drop 5 props))"
    using sum_entryLength_ge [of "drop 5 props"] by simp
  show ?thesis using a b c d assms by linarith
qed

lemma simplifySchema_length: "jlength (simplifySchema schema) \<le> jlength schema"
proof (cases "\<exists>fields props. schema = JObj fields
    \<and> map_of fields ''properties'' = Some (JObj props) \<and> 10 < length props")
  case True
  then obtain fields props where s: "schema = JObj fields"
    and p: "map_of fields ''properties'' = Some (JObj props)" and n: "10 < length props"
    by blast
  have "entryLength (''properties'', JObj props) \<le> sum_list (map entryLength fields)"
    using p by (rule map_of_entry_le)
  then have "15 + jlength (JObj props) \<le> jlength (JObj fields)"
    by (simp add: jlength_JObj [of fields] entryLength_def quote_lengths)
  moreover have "simplifySchema schema
      = JObj [(''type'', JStr ''object''), (''properties'', JObj (take 5 props))]"
    using s p n by (simp add: simplifySchema_def)
  ultimately show ?thesis using take5_length [OF n] s by simp
next
  case False
  then have "simplifySchema schema = schema"
    by (cases schema) (auto simp: simplifySchema_def split: option.splits json.splits)
  then show ?thesis by simp
qed

lemma simplifySchemas_length: "jlength (simplifySchemas spec) \<le> jlength spec"
proof (cases "\<exists>kvs ss. spec = JObj kvs \<and> map_of kvs ''schemas'' = Some (JObj ss)")
  case True
  then obtain kvs ss where s: "spec = JObj kvs" and m: "map_of kvs ''schemas'' = Some (JObj ss)"
    by blast
  define f where "f = (\<lambda>(name :: string, schema). (name, simplifySchema schema))"
  have "sum_list (map (entryLength \<circ> f) ss) \<le> sum_list (map entryLength ss)"
    by (rule sum_list_map_mono)
       (auto simp: f_def entryLength_def simplifySchema_length)
  then have "jlength (JObj (map f ss)) \<le> jlength (JObj ss)"
    by (simp add: jlength_JObj)
  then have "jlength (JObj (assign ''schemas'' (JObj (map f ss)) kvs)) \<le> jlength (JObj kvs)"
    using m by (rule assign_length_le [rotated])
  moreover have "simplifySchemas spec = JObj (assign ''schemas'' (JObj (map f ss)) kvs)"
    using s m by (simp add: simplifySchemas_def f_def)
  ultimately show ?thesis using s by simp
next
  case False
  then have "simplifySchemas spec = spec"
    by (cases spec) (auto simp: simplifySchemas_def split: option.splits json.splits)
  then show ?thesis by simp
qed

lemma keepPaths_sum:
  "sum_list (map jlength (keepPaths maxTokens cur ps)) \<le> sum_list (map jlength ps)
   \<and> length (keepPaths maxTokens cur ps) \<le> length ps"
  by (induction ps arbitrary: cur) (auto simp: Let_def)

lemma sort_key_sum:
  fixes g :: "'a \<Rightarrow> nat"
  shows "sum_list (map g (sort_key f xs)) = sum_list (map g xs)"
proof -
  have "mset (map g (sort_key f xs)) = mset (map g xs)" by simp
  then show ?thesis by (metis sum_mset_sum_list)
qed

lemma reduceOperations_length: "jlength (reduceOperations spec maxTokens) \<le> jlength spec"
proof (cases "\<exists>kvs ps. spec = JObj kvs \<and> map_of kvs ''paths'' = Some (JArr ps)")
  case True
  then obtain kvs ps where s: "spec = JObj kvs" and m: "map_of kvs ''paths'' = Some (JArr ps)"
    by blast
  define cur where "cur = estimateTokens (JSON_stringify
      (obj [(''info'', field ''info'' spec), (''schemas'', field ''schemas'' spec)]))"
  define kept where "kept = keepPaths maxTokens cur (sort_key (\<lambda>p. - pathScore p) ps)"
  have "sum_list (map jlength kept) \<le> sum_list (map jlength ps)"
    and "length kept \<le> length ps"
    using keepPaths_sum [of maxTokens cur "sort_key (\<lambda>p. - pathScore p) ps"]
    by (simp_all add: kept_def sort_key_sum)
  then have "jlength (JArr kept) \<le> jlength (JArr ps)"
    by (simp add: jlength_JArr add_mono diff_le_mono)
  then have "jlength (JObj (assign ''paths'' (JArr kept) kvs)) \<le> jlength (JObj kvs)"
    using m by (rule assign_length_le [rotated])
  moreover have "reduceOperations spec maxTokens = JObj (assign ''paths'' (JArr kept) kvs)"
    using s m by (simp add: reduceOperations_def kept_def cur_def Let_def)
  ultimately show ?thesis using s by simp
next
  case False
  then have "reduceOperations spec maxTokens = spec"
    by (cases spec) (auto simp: reduceOperations_def split: option.splits json.splits)
  then show ?thesis by simp
qed

lemma tokens_mono: "jlength a \<le> jlength b \<Longrightarrow> tokens a \<le> tokens b"
  by (simp add: tokens_def estimateTokens_def jlength_def div_le_mono)


lemma map_of_assign: "map_of (assign k v kvs) k = Some v"
  by (induction kvs) auto

lemma field_set_field: "field k (set_field k v (JObj kvs)) = Some v"
  by (simp add: map_of_assign)

lemma spec_json_object: "\<exists>kvs. spec_json m = JObj kvs"
  by (simp add: spec_json_def obj_def)

lemma removeDescriptions_object: "\<exists>kvs'. removeDescriptions (JObj kvs) = JObj kvs'"
  by (simp add: removeDescriptions_def)

lemma simplifySchemas_object: "\<exists>kvs'. simplifySchemas (JObj kvs) = JObj kvs'"
  by (auto simp: simplifySchemas_def split: option.splits json.splits)

lemma reduceOperations_object: "\<exists>kvs'. reduceOperations (JObj kvs) maxTokens = JObj kvs'"
  by (auto simp: reduceOperations_def Let_def split: option.splits json.splits)

lemma removeDescriptions_tokens: "tokens (removeDescriptions j) \<le> tokens j"
  by (simp add: removeDescriptions_def tokens_mono removeDescriptionsRecursive_length)

lemma simplifySchemas_tokens: "tokens (simplifySchemas j) \<le> tokens j"
  by (simp add: tokens_mono simplifySchemas_length)

lemma reduceOperations_tokens: "tokens (reduceOperations j maxTokens) \<le> tokens j"
  by (simp add: tokens_mono reduceOperations_length)

text \<open>
  The stages meet only the shapes of a minified specification: after the removal of
  descriptions \<open>schemas\<close> is an object whose values are objects with \<open>properties\<close>
  absent or an object, \<open>paths\<close> is an array of objects whose \<open>operations\<close> is an array,
  and every operation has its \<open>method\<close> string.
\<close>

lemma schema_shape:
  "\<exists>fields. removeDescriptionsRecursive (schema_json s) = JObj fields
     \<and> (map_of fields ''properties'' = None
          \<or> (\<exists>props. map_of fields ''properties'' = Some (JObj props)))"
proof (cases s)
  case (MinifiedSchema t r ps it req en fmt)
  then show ?thesis
    by (cases r; cases ps; cases it; cases req; cases en; cases fmt)
       (simp_all add: obj_def List.map_filter_simps)
qed

lemma spec_schemas_shape:
  "field ''schemas'' (removeDescriptions (spec_json m))
   = Some (JObj (map (\<lambda>(n, s). (n, removeDescriptionsRecursive (schema_json s)))
                  (filter (\<lambda>(n, s). n \<noteq> ''description'') (m_schemas m))))"
  by (simp add: removeDescriptions_def spec_json_def obj_def List.map_filter_simps
      filter_map comp_def case_prod_unfold)

lemma operation_shape:
  "\<exists>fields. removeDescriptionsRecursive (operation_json op) = JObj fields
     \<and> map_of fields ''method'' = Some (JStr (op_method op))
     \<and> map_of fields ''operationId'' = map_option JStr (op_operationId op)"
  by (cases "op_operationId op"; cases "op_summary op"; cases "op_parameters op";
      cases "op_requestBody op")
     (simp_all add: operation_json_def obj_def List.map_filter_simps)

lemma path_shape:
  "\<exists>fields. removeDescriptionsRecursive (path_json p) = JObj fields
     \<and> map_of fields ''operations''
        = Some (JArr (map (\<lambda>op. removeDescriptionsRecursive (operation_json op)) (pt_operations p)))"
  by (simp add: path_json_def obj_def List.map_filter_simps comp_def)

lemma spec_paths_shape:
  "field ''paths'' (simplifySchemas (removeDescriptions (spec_json m)))
   = Some (JArr (map (\<lambda>p. removeDescriptionsRecursive (path_json p)) (m_paths m)))"
  by (simp add: removeDescriptions_def simplifySchemas_def spec_json_def obj_def
      List.map_filter_simps comp_def)

text \<open>
  C1, as the code has it. When \<open>tokenCount\<close> is within the budget the input is
  returned unchanged. Otherwise the result is what one of the three stages (removal
  of descriptions, simplification of schemas, reduction of paths) produced, with
  \<open>tokenCount\<close> set to the estimate of that stage's serialisation, in which the old
  \<open>tokenCount\<close> still stands. No stage increases that estimate, so the stored value is
  at most the estimate of the serialisation of the input. The function is total: no
  stage raises an error.
\<close>

theorem optimizeForTokenLimit_stages:
  "(m_tokenCount m \<le> maxTokens \<longrightarrow> optimizeForTokenLimit m maxTokens = spec_json m)
   \<and> tokens (removeDescriptions (spec_json m)) \<le> tokens (spec_json m)
   \<and> tokens (simplifySchemas (removeDescriptions (spec_json m)))
       \<le> tokens (removeDescriptions (spec_json m))
   \<and> tokens (reduceOperations (simplifySchemas (removeDescriptions (spec_json m))) maxTokens)
       \<le> tokens (simplifySchemas (removeDescriptions (spec_json m)))
   \<and> (maxTokens < m_tokenCount m \<longrightarrow>
        (\<exists>stage \<in> set [removeDescriptions (spec_json m),
                         simplifySchemas (removeDescriptions (spec_json m)),
                         reduceOperations (simplifySchemas (removeDescriptions (spec_json m)))
                           maxTokens].
           optimizeForTokenLimit m maxTokens
             = set_field ''tokenCount'' (JNum (int (tokens stage))) stage
           \<and> field ''tokenCount'' (optimizeForTokenLimit m maxTokens)
             = Some (JNum (int (tokens stage)))
           \<and> tokens stage \<le> tokens (spec_json m)))"
proof -
  define s1 where "s1 = removeDescriptions (spec_json m)"
  define s2 where "s2 = simplifySchemas s1"
  define s3 where "s3 = reduceOperations s2 maxTokens"
  have t1: "tokens s1 \<le> tokens (spec_json m)"
    unfolding s1_def by (rule removeDescriptions_tokens)
  have t2: "tokens s2 \<le> tokens s1"
    unfolding s2_def by (rule simplifySchemas_tokens)
  have t3: "tokens s3 \<le> tokens s2"
    unfolding s3_def by (rule reduceOperations_tokens)
  obtain k1 where o1: "s1 = JObj k1"
    using spec_json_object [of m] removeDescriptions_object unfolding s1_def by metis
  obtain k2 where o2: "s2 = JObj k2"
    using simplifySchemas_object [of k1] o1 unfolding s2_def by metis
  obtain k3 where o3: "s3 = JObj k3"
    using reduceOperations_object [of k2 maxTokens] o2 unfolding s3_def by metis
  have f: "\<And>s. s \<in> {s1, s2, s3} \<Longrightarrow>
      field ''tokenCount'' (set_field ''tokenCount'' (JNum (int (tokens s))) s)
      = Some (JNum (int (tokens s)))"
    using o1 o2 o3 field_set_field by auto
  have r: "maxTokens < m_tokenCount m \<Longrightarrow>
      \<exists>s \<in> {s1, s2, s3}. optimizeForTokenLimit m maxTokens
         = set_field ''tokenCount'' (JNum (int (tokens s))) s"
    by (auto simp: optimizeForTokenLimit_def Let_def s1_def s2_def s3_def)
  have b: "\<And>s. s \<in> {s1, s2, s3} \<Longrightarrow> tokens s \<le> tokens (spec_json m)"
    using t1 t2 t3 by auto
  have "maxTokens < m_tokenCount m \<Longrightarrow>
      \<exists>s \<in> {s1, s2, s3}. optimizeForTokenLimit m maxTokens
         = set_field ''tokenCount'' (JNum (int (tokens s))) s
       \<and> field ''tokenCount'' (optimizeForTokenLimit m maxTokens) = Some (JNum (int (tokens s)))
       \<and> tokens s \<le> tokens (spec_json m)"
    using r f b by metis
  then show ?thesis
    using t1 t2 t3 by (simp add: optimizeForTokenLimit_def s1_def s2_def s3_def)
qed

theorem optimizeForTokenLimit_stages_witness:
  "optimizeForTokenLimit (minify longDocument) 200 = spec_json (minify longDocument)
   \<and> m_tokenCount (minify longDocument) = 157
   \<and> tokens (spec_json (minify longDocument)) = 158
   \<and> tokens (removeDescriptions (spec_json (minify longDocument))) = 110
   \<and> field ''tokenCount'' (optimizeForTokenLimit (minify longDocument) 50) = Some (JNum 20)"
proof -
  have h: "m_tokenCount (minify longDocument) \<le> 200" by code_simp
  have a: "optimizeForTokenLimit (minify longDocument) 200 = spec_json (minify longDocument)"
    using optimizeForTokenLimit_stages [of "minify longDocument" 200] h by blast
  have b: "m_tokenCount (minify longDocument) = 157" by code_simp
  have c: "tokens (spec_json (minify longDocument)) = 158" by code_simp
  have d: "tokens (removeDescriptions (spec_json (minify longDocument))) = 110" by code_simp
  have e: "field ''tokenCount'' (optimizeForTokenLimit (minify longDocument) 50) = Some (JNum 20)"
    by code_simp
  from a b c d e show ?thesis by blast
qed

text \<open>
  C1 as it is stated fails: for the minified document with a title, a version and no paths,
  whose \<open>tokenCount\<close> is 20, and the budget 5, no stage can remove anything and the
  result carries the estimate 21.
\<close>

theorem optimizeForTokenLimit_counterexample:
  "m_tokenCount (minify bareDocument) = 20
   \<and> field ''tokenCount'' (optimizeForTokenLimit (minify bareDocument) 5) = Some (JNum 21)"
  by code_simp

section \<open>The statistics of the process-local cache\<close>












section \<open>Failures of the shared store\<close>

lemma glob_star: "glob ''*'' s"
  by (induction s) simp_all

lemma glob_prefix:
  assumes "CHR ''*'' \<notin> set p" and "CHR ''?'' \<notin> set p"
  shows "glob (p @ ''*'') s = (take (length p) s = p)"
  using assms
proof (induction p arbitrary: s)
  case Nil
  then show ?case using glob_star by simp
next
  case (Cons a p)
  then show ?case by (cases s) auto
qed

lemma glob_keyPrefix: "glob (keyPrefix @ ''*'') = (\<lambda>k. take (length keyPrefix) k = keyPrefix)"
proof
  fix k
  show "glob (keyPrefix @ ''*'') k = (take (length keyPrefix) k = keyPrefix)"
    by (rule glob_prefix) (simp_all add: keyPrefix_def)
qed

lemma MemoryCache_clear_frame:
  "mc_cache (MemoryCache_clear c) = []
   \<and> storageUsed (mc_stats (MemoryCache_clear c)) = 0
   \<and> history (mc_stats (MemoryCache_clear c)) = history (mc_stats c)"
  by (simp add: MemoryCache_clear_def history_def)

lemma SemanticCache_clear_open:
  assumes "reachable (sc_redis s)"
  shows "\<exists>s'. SemanticCache_clear now None s = Inr s'
           \<and> cacheKeys now s' = []
           \<and> storageUsed (sc_stats s') = 0
           \<and> history (sc_stats s') = history (sc_stats s)"
proof -
  define r where "r = sc_redis s"
  define keys where "keys = filter (glob (keyPrefix @ ''*'')) (map fst (live now r))"
  define r' where "r' = r\<lparr>entries := filter (\<lambda>(k, v). k \<notin> set keys) (entries r)\<rparr>"
  have o: "isOpen r" "available r" using assms by (simp_all add: reachable_def r_def)
  have c: "connect now s = Inr s" using o by (simp add: connect_def r_def)
  have k: "redis_keys now (sc_redis s) (keyPrefix @ [] @ ''*'') = Inr keys"
    using assms by (simp add: redis_keys_def keys_def r_def)
  have d: "redis_del (sc_redis s) keys = Inr r'"
    using assms by (simp add: redis_del_def r'_def r_def)
  have m: "k \<in> set keys \<longleftrightarrow> k \<in> fst ` set (live now r) \<and> take (length keyPrefix) k = keyPrefix"
    for k
    by (auto simp: keys_def glob_keyPrefix)
  show ?thesis
  proof (cases "keys = []")
    case True
    then have "SemanticCache_clear now None s = Inr (resetStorage s)"
      using c k by (simp add: SemanticCache_clear_def)
    moreover have "cacheKeys now (resetStorage s) = []"
      unfolding cacheKeys_def filter_empty_conv
      using m True by (simp add: resetStorage_def r_def)
    ultimately show ?thesis by (simp add: resetStorage_def history_def)
  next
    case False
    then have "SemanticCache_clear now None s = Inr (resetStorage (s\<lparr>sc_redis := r'\<rparr>))"
      using c k d by (simp add: SemanticCache_clear_def)
    moreover have "cacheKeys now (resetStorage (s\<lparr>sc_redis := r'\<rparr>)) = []"
    proof -
      have "set (live now r') \<subseteq> set (live now r)"
        by (auto simp: live_def r'_def)
      moreover have "k \<notin> set keys" if "k \<in> fst ` set (live now r')" for k
        using that by (auto simp: live_def r'_def)
      ultimately have "\<not> take (length keyPrefix) k = keyPrefix"
        if "k \<in> fst ` set (live now r')" for k
        using that m by blast
      then show ?thesis
        unfolding cacheKeys_def filter_empty_conv
        by (simp add: resetStorage_def)
    qed
    ultimately show ?thesis by (simp add: resetStorage_def history_def)
  qed
qed

lemma SemanticCache_clear_lost:
  assumes "isOpen (sc_redis s)" and "\<not> available (sc_redis s)"
  shows "SemanticCache_clear now None s
         = Inr (s\<lparr>sc_console :=
                     sc_console s @ [(''Cache clear error:'', Error ''The client is closed'')]\<rparr>)"
  using assms
  by (simp add: SemanticCache_clear_def connect_def redis_keys_def reachable_def logError_def)

text \<open>
  C10, as the code has it. \<open>clear\<close> of the process-local cache removes every entry and
  sets \<open>storageUsed\<close> to 0, and leaves \<open>totalRequests\<close>, \<open>hits\<close>, \<open>misses\<close> and
  \<open>costSavings\<close> as they were. \<open>clear()\<close> of the shared cache does the same for the keys
  under the prefix when its connection is open and the server answers. When the
  connection is open and the command fails, the error is written to the console and
  nothing else changes.
\<close>

theorem clear_frame:
  "mc_cache (MemoryCache_clear c) = []
   \<and> storageUsed (mc_stats (MemoryCache_clear c)) = 0
   \<and> history (mc_stats (MemoryCache_clear c)) = history (mc_stats c)
   \<and> (reachable (sc_redis s) \<longrightarrow>
        (\<exists>s'. SemanticCache_clear now None s = Inr s'
           \<and> cacheKeys now s' = []
           \<and> storageUsed (sc_stats s') = 0
           \<and> history (sc_stats s') = history (sc_stats s)))
   \<and> (isOpen (sc_redis s) \<and> \<not> available (sc_redis s) \<longrightarrow>
        SemanticCache_clear now None s
        = Inr (s\<lparr>sc_console :=
                    sc_console s @ [(''Cache clear error:'', Error ''The client is closed'')]\<rparr>))"
proof (intro conjI impI)
  show "mc_cache (MemoryCache_clear c) = []"
    "storageUsed (mc_stats (MemoryCache_clear c)) = 0"
    "history (mc_stats (MemoryCache_clear c)) = history (mc_stats c)"
    using MemoryCache_clear_frame by blast+
next
  assume "reachable (sc_redis s)"
  then show "\<exists>s'. SemanticCache_clear now None s = Inr s'
           \<and> cacheKeys now s' = []
           \<and> storageUsed (sc_stats s') = 0
           \<and> history (sc_stats s') = history (sc_stats s)"
    by (rule SemanticCache_clear_open)
next
  assume "isOpen (sc_redis s) \<and> \<not> available (sc_redis s)"
  then show "SemanticCache_clear now None s
        = Inr (s\<lparr>sc_console :=
                    sc_console s @ [(''Cache clear error:'', Error ''The client is closed'')]\<rparr>)"
    using SemanticCache_clear_lost by blast
qed

theorem clear_frame_witness:
  "reachable (sc_redis (lostCache\<lparr>sc_redis := (sc_redis lostCache)\<lparr>available := True\<rparr>\<rparr>))
   \<and> cacheKeys 0 (lostCache\<lparr>sc_redis := (sc_redis lostCache)\<lparr>available := True\<rparr>\<rparr>)
       = [''mcpgen:cache:k'']
   \<and> (\<exists>s'. SemanticCache_clear 0 None
               (lostCache\<lparr>sc_redis := (sc_redis lostCache)\<lparr>available := True\<rparr>\<rparr>) = Inr s'
           \<and> cacheKeys 0 s' = []
           \<and> storageUsed (sc_stats s') = 0
           \<and> history (sc_stats s') = history (sc_stats lostCache))
   \<and> isOpen (sc_redis lostCache) \<and> \<not> available (sc_redis lostCache)
   \<and> SemanticCache_clear 0 None lostCache
     = Inr (lostCache\<lparr>sc_console := [(''Cache clear error:'', Error ''The client is closed'')]\<rparr>)"
proof -
  let ?s = "lostCache\<lparr>sc_redis := (sc_redis lostCache)\<lparr>available := True\<rparr>\<rparr>"
  have h: "reachable (sc_redis ?s)" by (simp add: reachable_def lostCache_def)
  have k: "cacheKeys 0 ?s = [''mcpgen:cache:k'']" by code_simp
  have e: "history (sc_stats ?s) = history (sc_stats lostCache)" by simp
  have a: "\<exists>s'. SemanticCache_clear 0 None ?s = Inr s'
           \<and> cacheKeys 0 s' = []
           \<and> storageUsed (sc_stats s') = 0
           \<and> history (sc_stats s') = history (sc_stats lostCache)"
    using clear_frame [of _ ?s 0] h e by auto
  have l: "isOpen (sc_redis lostCache) \<and> \<not> available (sc_redis lostCache)"
    "sc_console lostCache = []"
    by (simp_all add: lostCache_def)
  have b: "SemanticCache_clear 0 None lostCache
     = Inr (lostCache\<lparr>sc_console := [(''Cache clear error:'', Error ''The client is closed'')]\<rparr>)"
    using clear_frame [of _ lostCache 0] l by simp
  from h k a l(1) b show ?thesis by blast
qed

text \<open>
  C10 as it is stated (for both variants and every state) fails: with the connection
  open and the server lost, \<open>clear()\<close> of the shared cache catches the error, and the
  entry and \<open>storageUsed = 7\<close> stay.
\<close>

theorem clear_counterexample:
  "map_sum id (\<lambda>s'. (cacheKeys 0 s', storageUsed (sc_stats s')))
     (SemanticCache_clear 0 None lostCache) = Inr ([''mcpgen:cache:k''], 7)"
  by code_simp







section \<open>Eviction from the process-local cache\<close>

text \<open>
  C6 at concrete inputs. A cache of capacity 1 and two \<open>set\<close> calls with distinct keys:
  when both calls read the same millisecond from the clock, \<open>evictLRU\<close> starts its
  search at that time, finds no entry that was accessed before it and evicts nothing,
  so the cache holds both entries; when the second call comes a millisecond later, the
  first entry is evicted. A cache of capacity 2 with clock readings that all differ:
  after \<open>set\<close> of two keys, a \<open>get\<close> of the first and a \<open>set\<close> of a third, the second
  key is the one evicted.
\<close>

theorem evictLRU_same_millisecond:
  "mc_maxSize (newMemoryCache 1 3600000) = 1
   \<and> map fst (mc_cache (setAll paddedDigest contentSize
         [(1000, requestA, paidResponse), (1000, requestB, paidResponse)]
         (newMemoryCache 1 3600000)))
     = [requestKey paddedDigest requestA, requestKey paddedDigest requestB]
   \<and> map fst (mc_cache (setAll paddedDigest contentSize
         [(1000, requestA, paidResponse), (1001, requestB, paidResponse)]
         (newMemoryCache 1 3600000)))
     = [requestKey paddedDigest requestB]
   \<and> map fst (mc_cache
         (setAll paddedDigest contentSize [(4, requestC, paidResponse)]
            (getAll paddedDigest [(3, requestA)]
               (setAll paddedDigest contentSize
                  [(1, requestA, paidResponse), (2, requestB, paidResponse)]
                  (newMemoryCache 2 3600000)))))
     = [requestKey paddedDigest requestA, requestKey paddedDigest requestC]"
  by code_simp

section \<open>A failing provider call\<close>

lemma after_Inr [simp]: "after items console (Inr (d, c, l)) = Inr (items @ d, c, console @ l)"
  by (simp add: after_def)

lemma after_Inl [simp]: "after items console (Inl e) = Inl e"
  by (simp add: after_def)

lemma after_after: "after a b (after a' b' x) = after (a @ a') (b @ b') x"
  by (cases x) (auto simp: after_def)

lemma after_Nil [simp]: "after [] [] x = x"
  by (cases x) (auto simp: after_def)

lemma toolDocumentationLoop_acc:
  "toolDocumentationLoop g tools docs c console
   = after docs console (toolDocumentationLoop g tools [] c [])"
proof (induction tools arbitrary: docs c console)
  case Nil
  then show ?case by simp
next
  case (Cons tool rest)
  have step: "toolDocumentationLoop g rest (docs @ X) c1 (console @ Y)
      = after docs console (toolDocumentationLoop g rest X c1 Y)" for X c1 Y
  proof -
    have "toolDocumentationLoop g rest (docs @ X) c1 (console @ Y)
        = after (docs @ X) (console @ Y) (toolDocumentationLoop g rest [] c1 [])"
      by (rule Cons.IH)
    also have "\<dots> = after docs console (after X Y (toolDocumentationLoop g rest [] c1 []))"
      by (simp add: after_after)
    also have "after X Y (toolDocumentationLoop g rest [] c1 []) = toolDocumentationLoop g rest X c1 Y"
      by (rule Cons.IH [symmetric])
    finally show ?thesis .
  qed
  have step0: "toolDocumentationLoop g rest (docs @ X) c1 console
      = after docs console (toolDocumentationLoop g rest X c1 [])" for X c1
    using step [of X c1 "[]"] by simp
  show ?case
    by (simp add: step step0 Let_def split: sum.splits option.splits prod.splits)
qed

lemma toolDocumentationLoop_append:
  "toolDocumentationLoop g (xs @ ys) docs c console
   = (case toolDocumentationLoop g xs docs c console of
        Inl e \<Rightarrow> Inl e
      | Inr (d1, c1, l1) \<Rightarrow> toolDocumentationLoop g ys d1 c1 l1)"
  by (induction xs arbitrary: docs c console)
     (simp_all add: Let_def split: sum.splits option.splits prod.splits)

lemma generateToolDocumentation_append:
  "generateToolDocumentation g (xs @ ys) c
   = (case generateToolDocumentation g xs c of
        Inl e \<Rightarrow> Inl e
      | Inr (d1, c1, l1) \<Rightarrow> after d1 l1 (generateToolDocumentation g ys c1))"
  unfolding generateToolDocumentation_def toolDocumentationLoop_append
  by (auto simp: toolDocumentationLoop_acc [symmetric] split: sum.splits)

lemma codeExamplesLoop_acc:
  "codeExamplesLoop g language projectName tools xs c console
   = after xs console (codeExamplesLoop g language projectName tools [] c [])"
proof (induction tools arbitrary: xs c console)
  case Nil
  then show ?case by simp
next
  case (Cons tool rest)
  have step: "codeExamplesLoop g language projectName rest (xs @ X) c1 (console @ Y)
      = after xs console (codeExamplesLoop g language projectName rest X c1 Y)" for X c1 Y
  proof -
    have "codeExamplesLoop g language projectName rest (xs @ X) c1 (console @ Y)
        = after (xs @ X) (console @ Y) (codeExamplesLoop g language projectName rest [] c1 [])"
      by (rule Cons.IH)
    also have "\<dots> = after xs console
        (after X Y (codeExamplesLoop g language projectName rest [] c1 []))"
      by (simp add: after_after)
    also have "after X Y (codeExamplesLoop g language projectName rest [] c1 [])
        = codeExamplesLoop g language projectName rest X c1 Y"
      by (rule Cons.IH [symmetric])
    finally show ?thesis .
  qed
  have step0: "codeExamplesLoop g language projectName rest (xs @ X) c1 console
      = after xs console (codeExamplesLoop g language projectName rest X c1 [])" for X c1
    using step [of X c1 "[]"] by simp
  have step1: "codeExamplesLoop g language projectName rest xs c1 (console @ Y)
      = after xs console (codeExamplesLoop g language projectName rest [] c1 Y)" for c1 Y
    using step [of "[]" c1 Y] by simp
  show ?case
    by (simp add: step step0 step1 Let_def split: sum.splits option.splits prod.splits)
qed

lemma codeExamplesLoop_append:
  "codeExamplesLoop g language projectName (ts @ us) xs c console
   = (case codeExamplesLoop g language projectName ts xs c console of
        Inl e \<Rightarrow> Inl e
      | Inr (d1, c1, l1) \<Rightarrow> codeExamplesLoop g language projectName us d1 c1 l1)"
  by (induction ts arbitrary: xs c console)
     (simp_all add: Let_def split: sum.splits option.splits prod.splits)


lemma generateCodeExamples_append:
  assumes "length (ts @ us) \<le> 5"
  shows "generateCodeExamples g language projectName (ts @ us) c
   = (case generateCodeExamples g language projectName ts c of
        Inl e \<Rightarrow> Inl e
      | Inr (d1, c1, l1) \<Rightarrow> after d1 l1 (generateCodeExamples g language projectName us c1))"
proof -
  have "take 5 (ts @ us) = ts @ us" "take 5 ts = ts" "take 5 us = us"
    using assms by simp_all
  then show ?thesis
    unfolding generateCodeExamples_def
    by (auto simp: codeExamplesLoop_append codeExamplesLoop_acc [symmetric] split: sum.splits)
qed

lemma toolDocumentation_failure:
  assumes "dg_cache_get g c (toolDocKey tool) (dg_providerName g) = Inr (None, c')"
    and "dg_generate g (dg_renderToolDocPrompt g tool)
           \<lparr>go_maxTokens = Some 1500, go_temperature = Some (2 / 10)\<rparr> = Inl e"
  shows "generateToolDocumentation g (tool # rest) c
         = after [generateFallbackToolDoc tool] [(toolDocWarning tool, e)]
             (generateToolDocumentation g rest c')"
  using assms
  by (simp add: generateToolDocumentation_def toolDocumentationLoop_acc [symmetric])

lemma codeExamples_failure:
  assumes "dg_cache_get g c (exampleKey tool language) (dg_providerName g) = Inr (None, c')"
    and "dg_generate g (dg_renderExamplePrompt g tool language projectName)
           \<lparr>go_maxTokens = Some 800, go_temperature = Some (4 / 10)\<rparr> = Inl e"
    and "length (tool # rest) \<le> 5"
  shows "generateCodeExamples g language projectName (tool # rest) c
         = after [] [(exampleWarning tool, e)]
             (generateCodeExamples g language projectName rest c')"
proof -
  have "take 5 (tool # rest) = tool # rest" "take 5 rest = rest"
    using assms(3) by simp_all
  then show ?thesis
    using assms(1,2)
    by (simp add: generateCodeExamples_def codeExamplesLoop_acc [symmetric])
qed

text \<open>
  C4, as the code has it. A run over the tools before a failing one, a miss in the
  cache and a provider call that throws for that tool, and a run over the tools after
  it, compose to the run over all of them: nothing is thrown, the outputs of the other
  tools are what their own runs give, and the failure is on the console. In
  \<open>generateToolDocumentation\<close> the failing tool gets the fallback document made from its
  own fields; in \<open>generateCodeExamples\<close> (at most five tools) it gets no entry at all.
\<close>

theorem failure_isolation:
  "(generateToolDocumentation g earlier c = Inr (d1, c1, l1)
    \<and> dg_cache_get g c1 (toolDocKey tool) (dg_providerName g) = Inr (None, c1')
    \<and> dg_generate g (dg_renderToolDocPrompt g tool)
         \<lparr>go_maxTokens = Some 1500, go_temperature = Some (2 / 10)\<rparr> = Inl e
    \<and> generateToolDocumentation g later c1' = Inr (d2, c2, l2)
    \<longrightarrow> generateToolDocumentation g (earlier @ tool # later) c
        = Inr (d1 @ [generateFallbackToolDoc tool] @ d2, c2,
               l1 @ [(toolDocWarning tool, e)] @ l2))
   \<and> (length (earlier @ tool # later) \<le> 5
      \<and> generateCodeExamples g language projectName earlier x = Inr (e1, x1, m1)
      \<and> dg_cache_get g x1 (exampleKey tool language) (dg_providerName g) = Inr (None, x1')
      \<and> dg_generate g (dg_renderExamplePrompt g tool language projectName)
           \<lparr>go_maxTokens = Some 800, go_temperature = Some (4 / 10)\<rparr> = Inl e
      \<and> generateCodeExamples g language projectName later x1' = Inr (e2, x2, m2)
      \<longrightarrow> generateCodeExamples g language projectName (earlier @ tool # later) x
          = Inr (e1 @ e2, x2, m1 @ [(exampleWarning tool, e)] @ m2))"
proof (intro conjI impI)
  assume a: "generateToolDocumentation g earlier c = Inr (d1, c1, l1)
    \<and> dg_cache_get g c1 (toolDocKey tool) (dg_providerName g) = Inr (None, c1')
    \<and> dg_generate g (dg_renderToolDocPrompt g tool)
         \<lparr>go_maxTokens = Some 1500, go_temperature = Some (2 / 10)\<rparr> = Inl e
    \<and> generateToolDocumentation g later c1' = Inr (d2, c2, l2)"
  then have "generateToolDocumentation g (tool # later) c1
      = Inr ([generateFallbackToolDoc tool] @ d2, c2, [(toolDocWarning tool, e)] @ l2)"
    using toolDocumentation_failure [of g c1 tool c1' e later] by simp
  then show "generateToolDocumentation g (earlier @ tool # later) c
        = Inr (d1 @ [generateFallbackToolDoc tool] @ d2, c2,
               l1 @ [(toolDocWarning tool, e)] @ l2)"
    using a by (simp add: generateToolDocumentation_append)
next
  assume a: "length (earlier @ tool # later) \<le> 5
      \<and> generateCodeExamples g language projectName earlier x = Inr (e1, x1, m1)
      \<and> dg_cache_get g x1 (exampleKey tool language) (dg_providerName g) = Inr (None, x1')
      \<and> dg_generate g (dg_renderExamplePrompt g tool language projectName)
           \<lparr>go_maxTokens = Some 800, go_temperature = Some (4 / 10)\<rparr> = Inl e
      \<and> generateCodeExamples g language projectName later x1' = Inr (e2, x2, m2)"
  then have l: "length (tool # later) \<le> 5" by simp
  have "generateCodeExamples g language projectName (tool # later) x1
      = Inr ([] @ e2, x2, [(exampleWarning tool, e)] @ m2)"
    using a codeExamples_failure [of g x1 tool language x1' projectName e later, OF _ _ l]
    by simp
  then show "generateCodeExamples g language projectName (earlier @ tool # later) x
          = Inr (e1 @ e2, x2, m1 @ [(exampleWarning tool, e)] @ m2)"
    using a by (simp add: generateCodeExamples_append)
qed


theorem failure_isolation_witness:
  "map_sum id (\<lambda>(d, c, l). (d, l))
     (generateToolDocumentation demoGenerator
        [demoTool ''good'', demoTool ''bad'', demoTool ''other''] (newMemoryCache 1000 3600000))
   = Inr ([demoToolDoc ''good'' ''doc:good'', generateFallbackToolDoc (demoTool ''bad''),
           demoToolDoc ''other'' ''doc:other''],
          [(toolDocWarning (demoTool ''bad''), Error ''network'')])
   \<and> map_sum id (\<lambda>(d, c, l). (d, l))
     (generateCodeExamples demoGenerator ''typescript'' ''demo''
        [demoTool ''good'', demoTool ''bad'', demoTool ''other''] (newMemoryCache 1000 3600000))
   = Inr ([demoExample ''example:good'' ''typescript'', demoExample ''example:other'' ''typescript''],
          [(exampleWarning (demoTool ''bad''), Error ''network'')])"
proof -
  let ?c = "newMemoryCache 1000 3600000"
  let ?g = demoGenerator
  let ?bad = "demoTool ''bad''"
  let ?R1 = "projr (generateToolDocumentation ?g [demoTool ''good''] ?c)"
  let ?G = "projr (dg_cache_get ?g (fst (snd ?R1)) (toolDocKey ?bad) (dg_providerName ?g))"
  let ?R2 = "projr (generateToolDocumentation ?g [demoTool ''other''] (snd ?G))"
  let ?S1 = "projr (generateCodeExamples ?g ''typescript'' ''demo'' [demoTool ''good''] ?c)"
  let ?H = "projr (dg_cache_get ?g (fst (snd ?S1)) (exampleKey ?bad ''typescript'') (dg_providerName ?g))"
  let ?S2 = "projr (generateCodeExamples ?g ''typescript'' ''demo'' [demoTool ''other''] (snd ?H))"
  have h1: "generateToolDocumentation ?g [demoTool ''good''] ?c
            = Inr (fst ?R1, fst (snd ?R1), snd (snd ?R1))"
    by code_simp
  have h2: "dg_cache_get ?g (fst (snd ?R1)) (toolDocKey ?bad) (dg_providerName ?g)
            = Inr (None, snd ?G)"
    by code_simp
  have h3: "dg_generate ?g (dg_renderToolDocPrompt ?g ?bad)
              \<lparr>go_maxTokens = Some 1500, go_temperature = Some (2 / 10)\<rparr> = Inl (Error ''network'')"
    by code_simp
  have h4: "generateToolDocumentation ?g [demoTool ''other''] (snd ?G)
            = Inr (fst ?R2, fst (snd ?R2), snd (snd ?R2))"
    by code_simp
  have k0: "length ([demoTool ''good''] @ ?bad # [demoTool ''other'']) \<le> 5" by simp
  have k1: "generateCodeExamples ?g ''typescript'' ''demo'' [demoTool ''good''] ?c
            = Inr (fst ?S1, fst (snd ?S1), snd (snd ?S1))"
    by code_simp
  have k2: "dg_cache_get ?g (fst (snd ?S1)) (exampleKey ?bad ''typescript'') (dg_providerName ?g)
            = Inr (None, snd ?H)"
    by code_simp
  have k3: "dg_generate ?g (dg_renderExamplePrompt ?g ?bad ''typescript'' ''demo'')
              \<lparr>go_maxTokens = Some 800, go_temperature = Some (4 / 10)\<rparr> = Inl (Error ''network'')"
    by code_simp
  have k4: "generateCodeExamples ?g ''typescript'' ''demo'' [demoTool ''other''] (snd ?H)
            = Inr (fst ?S2, fst (snd ?S2), snd (snd ?S2))"
    by code_simp
  note t = failure_isolation [of ?g "[demoTool ''good'']" ?c "fst ?R1" "fst (snd ?R1)"
      "snd (snd ?R1)" ?bad "snd ?G" "Error ''network''" "[demoTool ''other'']"
      "fst ?R2" "fst (snd ?R2)" "snd (snd ?R2)"
      "''typescript''" "''demo''" ?c "fst ?S1" "fst (snd ?S1)" "snd (snd ?S1)" "snd ?H"
      "fst ?S2" "fst (snd ?S2)" "snd (snd ?S2)"]
  have a: "generateToolDocumentation ?g ([demoTool ''good''] @ ?bad # [demoTool ''other'']) ?c
        = Inr (fst ?R1 @ [generateFallbackToolDoc ?bad] @ fst ?R2, fst (snd ?R2),
               snd (snd ?R1) @ [(toolDocWarning ?bad, Error ''network'')] @ snd (snd ?R2))"
    using t h1 h2 h3 h4 by blast
  have b: "generateCodeExamples ?g ''typescript'' ''demo''
             ([demoTool ''good''] @ ?bad # [demoTool ''other'']) ?c
        = Inr (fst ?S1 @ fst ?S2, fst (snd ?S2),
               snd (snd ?S1) @ [(exampleWarning ?bad, Error ''network'')] @ snd (snd ?S2))"
    using t k0 k1 k2 k3 k4 by blast
  have v: "fst ?R1 = [demoToolDoc ''good'' ''doc:good'']" "snd (snd ?R1) = []"
    "fst ?R2 = [demoToolDoc ''other'' ''doc:other'']" "snd (snd ?R2) = []"
    "fst ?S1 = [demoExample ''example:good'' ''typescript'']" "snd (snd ?S1) = []"
    "fst ?S2 = [demoExample ''example:other'' ''typescript'']" "snd (snd ?S2) = []"
    by code_simp+
  show ?thesis using a b v by simp
qed

text \<open>
  C4 as it is stated fails: when the provider call for the only tool throws,
  \<open>generateCodeExamples\<close> returns no example, and writes the warning.
\<close>

theorem failure_isolation_counterexample:
  "map_sum id (\<lambda>(xs, c, l). (xs, l))
     (generateCodeExamples demoGenerator ''typescript'' ''demo'' [demoTool ''bad'']
        (newMemoryCache 1000 3600000))
   = Inr ([], [(''Failed to generate example for tool bad:'', Error ''network'')])"
  by code_simp

section \<open>The cost ceiling\<close>




lemma callGenerate_ceiling:
  "callGenerate p prompt options (sv\<lparr>sv_maxMonthly := m\<rparr>)
   = apsnd (\<lambda>s. s\<lparr>sv_maxMonthly := m\<rparr>) (callGenerate p prompt options sv)"
  by (simp add: callGenerate_def)











end
